theory Spec2Isabelle
  imports Complex_Main
begin

section \<open>The hourglass model: \<open>SandPhysicsEngine\<close> (src/app.js, lines 14 to 117)\<close>

text \<open>
  The engine converts a progress ratio into the sand volumes and heights of the two
  chambers of an hourglass. JavaScript Numbers that carry fractions are modelled as
  real numbers with exact arithmetic: \<open>Math.max\<close>, \<open>Math.min\<close> and subtraction are the
  real operations, and \<open>Math.pow(x, y)\<close> for a positive base is \<open>x powr y\<close>. \<open>NaN\<close> and
  the rounding of IEEE doubles are outside this part of the model; the one rounding
  that decides a branch of the code, that of the subtraction in
  \<open>calculateSandHeights\<close>, is written out in \<open>calculateSandHeights_double\<close> below.
\<close>

text \<open>The constructor's constants that \<open>calculateSandHeights\<close> reads.\<close>

definition VOLUME_CURVE_EXPONENT :: real where
  "VOLUME_CURVE_EXPONENT = 7 / 10"


text \<open>
  \<open>volumeToHeight(volume, type)\<close>: the two guards come first, then the branch on
  \<open>type === 'lower'\<close>; both branches apply the same power.
\<close>

definition volumeToHeight :: "real \<Rightarrow> string \<Rightarrow> real" where
  "volumeToHeight volume type =
     (if volume \<le> 0 then 0
      else if volume \<ge> 1 then 1
      else if type = ''lower'' then volume powr VOLUME_CURVE_EXPONENT
      else volume powr VOLUME_CURVE_EXPONENT)"

text \<open>The object that \<open>calculateSandHeights\<close> returns.\<close>

record sandHeights =
  upperHeight :: real
  lowerHeight :: real
  upperVolume :: real
  lowerVolume :: real

definition calculateSandHeights :: "real \<Rightarrow> sandHeights" where
  "calculateSandHeights progress =
     (let lowerVolume = max 0 (min 1 progress);
          upperVolume = 1 - lowerVolume;
          upperHeight = volumeToHeight upperVolume ''upper'';
          lowerHeight = volumeToHeight lowerVolume ''lower''
      in \<lparr> upperHeight = upperHeight, lowerHeight = lowerHeight,
           upperVolume = upperVolume, lowerVolume = lowerVolume \<rparr>)"


subsection \<open>The subtraction of \<open>calculateSandHeights\<close> in double arithmetic\<close>

text \<open>
  \<open>1.0 - lowerVolume\<close> is a subtraction of IEEE 754 doubles: its result is the double
  nearest to the exact difference, a tie going to the double whose significand is
  even. \<open>roundDouble\<close> is that rounding. A double of magnitude at least \<open>2 ^ - 1022\<close> has
  52 bits after its leading bit, so the doubles of the binade that starts at \<open>2 ^ k\<close> are
  the multiples of \<open>2 ^ (k - 52)\<close>; below \<open>2 ^ - 1022\<close> they are the multiples of
  \<open>2 ^ - 1074\<close>. Overflow to \<open>Infinity\<close> (from \<open>2 ^ 1024\<close> on) is not modelled: the
  numbers rounded here have magnitude at most 2.
\<close>

definition roundEven :: "real \<Rightarrow> int" where
  "roundEven r =
     (let f = \<lfloor>r\<rfloor>
      in if r - of_int f < 1 / 2 then f
         else if 1 / 2 < r - of_int f then f + 1
         else if even f then f else f + 1)"

definition roundDouble :: "real \<Rightarrow> real" where
  "roundDouble x =
     (if x = 0 then 0
      else (let e = max \<lfloor>log 2 \<bar>x\<bar>\<rfloor> (- 1022) - 52
            in of_int (roundEven (x / 2 powr of_int e)) * 2 powr of_int e))"

text \<open>
  \<open>calculateSandHeights\<close> once more, with the rounding of its subtraction written out;
  \<open>Math.max\<close> and \<open>Math.min\<close> return one of their arguments and round nothing, and
  \<open>Math.pow\<close>, whose precision the language leaves to the implementation, stays the
  exact power inside \<open>volumeToHeight\<close>.
\<close>

definition calculateSandHeights_double :: "real \<Rightarrow> sandHeights" where
  "calculateSandHeights_double progress =
     (let lowerVolume = max 0 (min 1 progress);
          upperVolume = roundDouble (1 - lowerVolume);
          upperHeight = volumeToHeight upperVolume ''upper'';
          lowerHeight = volumeToHeight lowerVolume ''lower''
      in \<lparr> upperHeight = upperHeight, lowerHeight = lowerHeight,
           upperVolume = upperVolume, lowerVolume = lowerVolume \<rparr>)"



section \<open>JavaScript Numbers and Dates, as the delivery calculator uses them\<close>

text \<open>
  The delivery calculator works on integers: a lead time read with \<open>parseInt\<close>, a
  counter, and the year, month, day of the month and day of the week that a \<open>Date\<close>
  reports. A Number that holds an integer is an \<open>int\<close>; \<open>number\<close> adds \<open>NaN\<close>, which
  is \<open>None\<close>. A getter of an invalid \<open>Date\<close> returns \<open>NaN\<close>, and \<open>NaN + k\<close> is \<open>NaN\<close>.
\<close>

type_synonym number = "int option"

definition plusNumber :: "number \<Rightarrow> int \<Rightarrow> number" where
  "plusNumber x k = map_option (\<lambda>n. n + k) x"

text \<open>
  \<open>counter++\<close> on a Number that holds a non-negative integer: the sum is exact below
  \<open>2 ^ 53\<close>; \<open>2 ^ 53 + 1\<close> is not a double and rounds back to \<open>2 ^ 53\<close> (ties to even),
  so the counter stays there.
\<close>

definition increment :: "int \<Rightarrow> int" where
  "increment n = (if n < 2 ^ 53 then n + 1 else n)"

subsection \<open>Day number, year, month, date and week day of a time value\<close>

text \<open>
  The functions of the ECMAScript specification (Time Values and Time Range, Day Number
  and Time within Day, Year Number, Month Number, Date Number, Week Day). A time value
  is a number of milliseconds since 1970-01-01T00:00Z. The year of a day is the largest
  \<open>y\<close> with \<open>DayFromYear y\<close> at most the day; \<open>YearFromDay\<close> computes it from an estimate
  that is off by at most one (lemma \<open>YearFromDay_largest\<close> below).
\<close>

definition msPerDay :: int where
  "msPerDay = 86400000"

definition Day :: "int \<Rightarrow> int" where
  "Day t = t div msPerDay"

definition TimeWithinDay :: "int \<Rightarrow> int" where
  "TimeWithinDay t = t mod msPerDay"

definition DaysInYear :: "int \<Rightarrow> int" where
  "DaysInYear y =
     (if y mod 4 \<noteq> 0 then 365
      else if y mod 100 \<noteq> 0 then 366
      else if y mod 400 \<noteq> 0 then 365
      else 366)"

definition DayFromYear :: "int \<Rightarrow> int" where
  "DayFromYear y =
     365 * (y - 1970) + (y - 1969) div 4 - (y - 1901) div 100 + (y - 1601) div 400"

definition YearFromDay :: "int \<Rightarrow> int" where
  "YearFromDay d =
     (let y = 1970 + (400 * d) div 146097
      in if DayFromYear (y + 1) \<le> d then y + 1
         else if DayFromYear y \<le> d then y
         else y - 1)"

definition InLeapYearOfDay :: "int \<Rightarrow> int" where
  "InLeapYearOfDay d = (if DaysInYear (YearFromDay d) = 366 then 1 else 0)"

definition DayWithinYear :: "int \<Rightarrow> int" where
  "DayWithinYear d = d - DayFromYear (YearFromDay d)"

text \<open>The day within the year on which month \<open>m\<close> (0 to 11) starts.\<close>

definition monthStart :: "int \<Rightarrow> int \<Rightarrow> int" where
  "monthStart m leap =
     (if m = 0 then 0 else if m = 1 then 31 else if m = 2 then 59 + leap
      else if m = 3 then 90 + leap else if m = 4 then 120 + leap
      else if m = 5 then 151 + leap else if m = 6 then 181 + leap
      else if m = 7 then 212 + leap else if m = 8 then 243 + leap
      else if m = 9 then 273 + leap else if m = 10 then 304 + leap
      else 334 + leap)"

definition MonthFromDay :: "int \<Rightarrow> int" where
  "MonthFromDay d =
     (let w = DayWithinYear d; leap = InLeapYearOfDay d
      in if w < 31 then 0 else if w < 59 + leap then 1 else if w < 90 + leap then 2
         else if w < 120 + leap then 3 else if w < 151 + leap then 4
         else if w < 181 + leap then 5 else if w < 212 + leap then 6
         else if w < 243 + leap then 7 else if w < 273 + leap then 8
         else if w < 304 + leap then 9 else if w < 334 + leap then 10
         else 11)"

definition DateFromDay :: "int \<Rightarrow> int" where
  "DateFromDay d = DayWithinYear d - monthStart (MonthFromDay d) (InLeapYearOfDay d) + 1"

definition WeekDayOfDay :: "int \<Rightarrow> int" where
  "WeekDayOfDay d = (d + 4) mod 7"

definition YearFromTime :: "int \<Rightarrow> int" where
  "YearFromTime t = YearFromDay (Day t)"

definition MonthFromTime :: "int \<Rightarrow> int" where
  "MonthFromTime t = MonthFromDay (Day t)"

definition DateFromTime :: "int \<Rightarrow> int" where
  "DateFromTime t = DateFromDay (Day t)"

definition WeekDay :: "int \<Rightarrow> int" where
  "WeekDay t = WeekDayOfDay (Day t)"

text \<open>
  \<open>MakeDay\<close>, \<open>MakeDate\<close> and \<open>TimeClip\<close>. \<open>MakeDay year month date\<close> is the day number of
  the first day of the month, plus \<open>date - 1\<close>; a month outside 0 to 11 carries into the
  year. \<open>TimeClip\<close> turns a time value beyond 8.64e15 milliseconds into \<open>NaN\<close>.
\<close>

definition MakeDay :: "int \<Rightarrow> int \<Rightarrow> int \<Rightarrow> int" where
  "MakeDay year month date =
     (let ym = year + month div 12;
          mn = month mod 12
      in DayFromYear ym + monthStart mn (if DaysInYear ym = 366 then 1 else 0) + date - 1)"

definition MakeDate :: "int \<Rightarrow> int \<Rightarrow> int" where
  "MakeDate day time = day * msPerDay + time"

definition maxTime :: int where
  "maxTime = 8640000000000000"

definition TimeClip :: "int \<Rightarrow> number" where
  "TimeClip time = (if \<bar>time\<bar> > maxTime then None else Some time)"

text \<open>
  Local time. The local time zone adjustment is the parameter \<open>tza\<close>, in milliseconds
  (32400000 for Japan Standard Time); it is one constant, so the model is of a zone
  without daylight-saving changes.
\<close>

definition LocalTime :: "int \<Rightarrow> int \<Rightarrow> int" where
  "LocalTime tza t = t + tza"

definition UTC :: "int \<Rightarrow> int \<Rightarrow> int" where
  "UTC tza t = t - tza"

subsection \<open>The \<open>Date\<close> object\<close>

text \<open>
  A \<open>Date\<close> is its time value, \<open>None\<close> for an invalid \<open>Date\<close>. \<open>setDate\<close> mutates the
  object; the model returns the new value. \<open>new Date(orderDate)\<close> copies the time value,
  so the copy is the value itself.
\<close>

type_synonym date = "int option"

text \<open>\<open>new Date(year, monthIndex, day)\<close>: local midnight; a year from 0 to 99 means 1900 + year.\<close>

definition Date_new :: "int \<Rightarrow> int \<Rightarrow> int \<Rightarrow> int \<Rightarrow> date" where
  "Date_new tza year monthIndex day =
     (let yr = (if 0 \<le> year \<and> year \<le> 99 then 1900 + year else year)
      in TimeClip (UTC tza (MakeDate (MakeDay yr monthIndex day) 0)))"

text \<open>\<open>new Date('YYYY-MM-DD')\<close>: the date-only string of a valid date is read as midnight UTC.\<close>

definition Date_parse :: "int \<times> int \<times> int \<Rightarrow> date" where
  "Date_parse ymd = (case ymd of (y, m, d) \<Rightarrow> TimeClip (MakeDate (MakeDay y (m - 1) d) 0))"

definition getFullYear :: "int \<Rightarrow> date \<Rightarrow> number" where
  "getFullYear tza this = map_option (\<lambda>t. YearFromTime (LocalTime tza t)) this"

definition getMonth :: "int \<Rightarrow> date \<Rightarrow> number" where
  "getMonth tza this = map_option (\<lambda>t. MonthFromTime (LocalTime tza t)) this"

definition getDate :: "int \<Rightarrow> date \<Rightarrow> number" where
  "getDate tza this = map_option (\<lambda>t. DateFromTime (LocalTime tza t)) this"

definition getDay :: "int \<Rightarrow> date \<Rightarrow> number" where
  "getDay tza this = map_option (\<lambda>t. WeekDay (LocalTime tza t)) this"

definition setDate :: "int \<Rightarrow> date \<Rightarrow> number \<Rightarrow> date" where
  "setDate tza this date =
     (case this of
        None \<Rightarrow> None
      | Some t0 \<Rightarrow>
          (case date of
             None \<Rightarrow> None
           | Some dt \<Rightarrow>
               (let t = LocalTime tza t0;
                    newDate = MakeDate (MakeDay (YearFromTime t) (MonthFromTime t) dt)
                                (TimeWithinDay t)
                in TimeClip (UTC tza newDate))))"


subsection \<open>Number to string, and \<open>padStart\<close>\<close>

text \<open>
  \<open>String(n)\<close> and the template literal print an integer below \<open>10 ^ 21\<close> in magnitude
  as its decimal numeral, with a minus sign when negative; every integer a \<open>Date\<close>
  reports is far below that bound. (From \<open>10 ^ 21\<close> on JavaScript prints a mantissa and
  an exponent, the model still the numeral; neither is a key of the holiday table.)
  \<open>NaN\<close> prints as \<open>NaN\<close>.
\<close>

definition digitChars :: string where
  "digitChars = ''0123456789''"

fun digitsOf :: "nat \<Rightarrow> string" where
  "digitsOf n =
     (if n < 10 then [digitChars ! n]
      else digitsOf (n div 10) @ [digitChars ! (n mod 10)])"

definition numberToString :: "number \<Rightarrow> string" where
  "numberToString x =
     (case x of
        None \<Rightarrow> ''NaN''
      | Some n \<Rightarrow> (if n < 0 then CHR ''-'' # digitsOf (nat (- n)) else digitsOf (nat n)))"

text \<open>\<open>s.padStart(targetLength, c)\<close> with a one-character fill string.\<close>

definition padStart :: "string \<Rightarrow> nat \<Rightarrow> char \<Rightarrow> string" where
  "padStart s targetLength c = replicate (targetLength - length s) c @ s"


section \<open>The holiday table and \<open>isHoliday\<close> (src/app.js, lines 125 to 203)\<close>

text \<open>
  The values of the table are Japanese holiday names. Each constructor of \<open>holidayName\<close>
  stands for one of the string literals of the source (written here in Latin letters);
  all of them are non-empty strings, so every value of the table is truthy.
\<close>

datatype holidayName =
    Ganjitsu | SeijinNoHi | KenkokuKinenNoHi | TennoTanjobi | FurikaeKyujitsu
  | ShunbunNoHi | ShowaNoHi | KenpoKinenbi | MidoriNoHi | KodomoNoHi | UmiNoHi
  | YamaNoHi | KeiroNoHi | ShubunNoHi | SportsNoHi | BunkaNoHi | KinroKanshaNoHi
  | KokuminNoKyujitsu

definition holidays :: "(string \<times> holidayName) list" where
  "holidays =
    [(''2025-01-01'', Ganjitsu), (''2025-01-13'', SeijinNoHi),
     (''2025-02-11'', KenkokuKinenNoHi), (''2025-02-23'', TennoTanjobi),
     (''2025-02-24'', FurikaeKyujitsu), (''2025-03-20'', ShunbunNoHi),
     (''2025-04-29'', ShowaNoHi), (''2025-05-03'', KenpoKinenbi),
     (''2025-05-04'', MidoriNoHi), (''2025-05-05'', KodomoNoHi),
     (''2025-05-06'', FurikaeKyujitsu), (''2025-07-21'', UmiNoHi),
     (''2025-08-11'', YamaNoHi), (''2025-09-15'', KeiroNoHi),
     (''2025-09-23'', ShubunNoHi), (''2025-10-13'', SportsNoHi),
     (''2025-11-03'', BunkaNoHi), (''2025-11-23'', KinroKanshaNoHi),
     (''2025-11-24'', FurikaeKyujitsu), (''2026-01-01'', Ganjitsu),
     (''2026-01-12'', SeijinNoHi), (''2026-02-11'', KenkokuKinenNoHi),
     (''2026-02-23'', TennoTanjobi), (''2026-03-20'', ShunbunNoHi),
     (''2026-04-29'', ShowaNoHi), (''2026-05-03'', KenpoKinenbi),
     (''2026-05-04'', MidoriNoHi), (''2026-05-05'', KodomoNoHi),
     (''2026-05-06'', FurikaeKyujitsu), (''2026-07-20'', UmiNoHi),
     (''2026-08-11'', YamaNoHi), (''2026-09-21'', KeiroNoHi),
     (''2026-09-22'', KokuminNoKyujitsu), (''2026-09-23'', ShubunNoHi),
     (''2026-10-12'', SportsNoHi), (''2026-11-03'', BunkaNoHi),
     (''2026-11-23'', KinroKanshaNoHi), (''2027-01-01'', Ganjitsu),
     (''2027-01-11'', SeijinNoHi), (''2027-02-11'', KenkokuKinenNoHi),
     (''2027-02-23'', TennoTanjobi), (''2027-03-21'', ShunbunNoHi),
     (''2027-03-22'', FurikaeKyujitsu), (''2027-04-29'', ShowaNoHi),
     (''2027-05-03'', KenpoKinenbi), (''2027-05-04'', MidoriNoHi),
     (''2027-05-05'', KodomoNoHi), (''2027-07-19'', UmiNoHi),
     (''2027-08-11'', YamaNoHi), (''2027-09-20'', KeiroNoHi),
     (''2027-09-23'', ShubunNoHi), (''2027-10-11'', SportsNoHi),
     (''2027-11-03'', BunkaNoHi), (''2027-11-23'', KinroKanshaNoHi),
     (''2028-01-01'', Ganjitsu), (''2028-01-10'', SeijinNoHi),
     (''2028-02-11'', KenkokuKinenNoHi), (''2028-02-23'', TennoTanjobi),
     (''2028-03-20'', ShunbunNoHi), (''2028-04-29'', ShowaNoHi),
     (''2028-05-03'', KenpoKinenbi), (''2028-05-04'', MidoriNoHi),
     (''2028-05-05'', KodomoNoHi), (''2028-07-17'', UmiNoHi),
     (''2028-08-11'', YamaNoHi), (''2028-09-18'', KeiroNoHi),
     (''2028-09-22'', ShubunNoHi), (''2028-10-09'', SportsNoHi),
     (''2028-11-03'', BunkaNoHi), (''2028-11-23'', KinroKanshaNoHi)]"

text \<open>
  \<open>isHoliday(year, month, day)\<close>: the key is built from the year, \<open>month + 1\<close> and the
  day, the last two padded to two characters; the result is the table's value, or
  \<open>undefined\<close> (\<open>None\<close>) when the table has no such key. The key holds two hyphens,
  so it never names a property that the table object inherits. The table has no key
  twice, so the first entry found is the only one.
\<close>

definition isHoliday :: "number \<Rightarrow> number \<Rightarrow> number \<Rightarrow> holidayName option" where
  "isHoliday year month day =
     (let dateStr = numberToString year @ ''-''
            @ padStart (numberToString (plusNumber month 1)) 2 (CHR ''0'') @ ''-''
            @ padStart (numberToString day) 2 (CHR ''0'')
      in map_of holidays dateStr)"

text \<open>The second copy of the table and of the function (src/unnamed/part_000, lines 366 to 409).\<close>

definition holidays_part_000 :: "(string \<times> holidayName) list" where
  "holidays_part_000 =
    [(''2025-01-01'', Ganjitsu), (''2025-01-13'', SeijinNoHi),
     (''2025-02-11'', KenkokuKinenNoHi), (''2025-02-23'', TennoTanjobi),
     (''2025-02-24'', FurikaeKyujitsu), (''2025-03-20'', ShunbunNoHi),
     (''2025-04-29'', ShowaNoHi), (''2025-05-03'', KenpoKinenbi),
     (''2025-05-04'', MidoriNoHi), (''2025-05-05'', KodomoNoHi),
     (''2025-05-06'', FurikaeKyujitsu), (''2025-07-21'', UmiNoHi),
     (''2025-08-11'', YamaNoHi), (''2025-09-15'', KeiroNoHi),
     (''2025-09-23'', ShubunNoHi), (''2025-10-13'', SportsNoHi),
     (''2025-11-03'', BunkaNoHi), (''2025-11-23'', KinroKanshaNoHi),
     (''2025-11-24'', FurikaeKyujitsu), (''2026-01-01'', Ganjitsu),
     (''2026-01-12'', SeijinNoHi), (''2026-02-11'', KenkokuKinenNoHi),
     (''2026-02-23'', TennoTanjobi), (''2026-03-20'', ShunbunNoHi),
     (''2026-04-29'', ShowaNoHi), (''2026-05-03'', KenpoKinenbi),
     (''2026-05-04'', MidoriNoHi), (''2026-05-05'', KodomoNoHi),
     (''2026-05-06'', FurikaeKyujitsu), (''2026-07-20'', UmiNoHi),
     (''2026-08-11'', YamaNoHi), (''2026-09-21'', KeiroNoHi),
     (''2026-09-22'', KokuminNoKyujitsu), (''2026-09-23'', ShubunNoHi),
     (''2026-10-12'', SportsNoHi), (''2026-11-03'', BunkaNoHi),
     (''2026-11-23'', KinroKanshaNoHi)]"

definition isHoliday_part_000 :: "number \<Rightarrow> number \<Rightarrow> number \<Rightarrow> holidayName option" where
  "isHoliday_part_000 year month day =
     (let dateStr = numberToString year @ ''-''
            @ padStart (numberToString (plusNumber month 1)) 2 (CHR ''0'') @ ''-''
            @ padStart (numberToString day) 2 (CHR ''0'')
      in map_of holidays_part_000 dateStr)"


section \<open>The delivery calculator: \<open>calculateDelivery\<close> (src/app.js, lines 1663 to 1714)\<close>

text \<open>
  The state of each day-stepping loop is the pair of the date and the counter. The
  body of the business-day loop: advance the date by one day, then count the day unless
  it is a Sunday (0), a Saturday (6) or a holiday.
\<close>

definition businessStep :: "int \<Rightarrow> date \<times> int \<Rightarrow> date \<times> int" where
  "businessStep tza s =
     (let businessDate = setDate tza (fst s) (plusNumber (getDate tza (fst s)) 1);
          dayOfWeek = getDay tza businessDate;
          isHol = isHoliday (getFullYear tza businessDate) (getMonth tza businessDate)
                    (getDate tza businessDate)
      in if dayOfWeek \<noteq> Some 0 \<and> dayOfWeek \<noteq> Some 6 \<and> isHol = None
         then (businessDate, increment (snd s))
         else (businessDate, snd s))"

partial_function (option) businessLoop :: "int \<Rightarrow> int \<Rightarrow> date \<times> int \<Rightarrow> (date \<times> int) option" where
  "businessLoop tza leadTime s =
     (if snd s < leadTime then businessLoop tza leadTime (businessStep tza s) else Some s)"

text \<open>The body of the holiday-aware loop: only a holiday is not counted.\<close>

definition holidayAwareStep :: "int \<Rightarrow> date \<times> int \<Rightarrow> date \<times> int" where
  "holidayAwareStep tza s =
     (let holidayAwareDate = setDate tza (fst s) (plusNumber (getDate tza (fst s)) 1);
          isHol = isHoliday (getFullYear tza holidayAwareDate) (getMonth tza holidayAwareDate)
                    (getDate tza holidayAwareDate)
      in if isHol = None
         then (holidayAwareDate, increment (snd s))
         else (holidayAwareDate, snd s))"

partial_function (option) holidayAwareLoop :: "int \<Rightarrow> int \<Rightarrow> date \<times> int \<Rightarrow> (date \<times> int) option" where
  "holidayAwareLoop tza leadTime s =
     (if snd s < leadTime then holidayAwareLoop tza leadTime (holidayAwareStep tza s)
      else Some s)"

text \<open>Calendar days: one \<open>setDate\<close> call.\<close>

definition calendarDate :: "int \<Rightarrow> date \<Rightarrow> int \<Rightarrow> date" where
  "calendarDate tza orderDate leadTime =
     setDate tza orderDate (plusNumber (getDate tza orderDate) leadTime)"

text \<open>
  \<open>formatResult\<close> prints the month, the day of the month and the name of the day of the
  week (one Japanese character, here a constructor of \<open>dayName\<close>); the model keeps the
  three printed values. An index that is \<open>NaN\<close> finds \<open>undefined\<close>.
\<close>

datatype dayName = Nichi | Getsu | Ka | Sui | Moku | Kin | Do

definition dayNames :: "dayName list" where
  "dayNames = [Nichi, Getsu, Ka, Sui, Moku, Kin, Do]"

record resultText =
  monthShown :: number
  dateShown :: number
  dayNameShown :: "dayName option"

definition formatResult :: "int \<Rightarrow> date \<Rightarrow> resultText" where
  "formatResult tza d =
     \<lparr> monthShown = plusNumber (getMonth tza d) 1,
       dateShown = getDate tza d,
       dayNameShown =
         (case getDay tza d of
            None \<Rightarrow> None
          | Some i \<Rightarrow> (if 0 \<le> i \<and> i < int (length dayNames) then Some (dayNames ! nat i)
                       else None)) \<rparr>"

text \<open>
  \<open>calculateDelivery\<close> reads the order date and the lead time from the page. The value
  of a date input is empty or a date \<open>YYYY-MM-DD\<close>, which \<open>split('-').map(Number)\<close> turns
  into three integers: the argument \<open>orderDateStr\<close> is \<open>None\<close> or those integers. The
  lead time is the result of \<open>parseInt\<close>. The function shows an alert and returns, or
  writes the three results to the page; the outer \<open>option\<close> is \<open>None\<close> when a loop
  does not terminate.
\<close>

datatype alertMessage = SelectOrderDate | EnterLeadTime

record deliveryResults =
  calcResultBusiness :: resultText
  calcResultHolidayAware :: resultText
  calcResultCalendar :: resultText

definition calculateDelivery ::
    "int \<Rightarrow> (int \<times> int \<times> int) option \<Rightarrow> number \<Rightarrow> (alertMessage + deliveryResults) option" where
  "calculateDelivery tza orderDateStr leadTime =
     (case orderDateStr of
        None \<Rightarrow> Some (Inl SelectOrderDate)
      | Some (y, m, d) \<Rightarrow>
          (case leadTime of
             None \<Rightarrow> Some (Inl EnterLeadTime)
           | Some n \<Rightarrow>
               if n = 0 \<or> n < 1 then Some (Inl EnterLeadTime)
               else
                 (let orderDate = Date_new tza y (m - 1) d
                  in case businessLoop tza n (orderDate, 0) of
                       None \<Rightarrow> None
                     | Some (businessDate, businessDays) \<Rightarrow>
                         (case holidayAwareLoop tza n (orderDate, 0) of
                            None \<Rightarrow> None
                          | Some (holidayAwareDate, holidayAwareDays) \<Rightarrow>
                              Some (Inr
                                \<lparr> calcResultBusiness = formatResult tza businessDate,
                                  calcResultHolidayAware = formatResult tza holidayAwareDate,
                                  calcResultCalendar =
                                    formatResult tza (calendarDate tza orderDate n) \<rparr>)))))"

subsection \<open>The second copy of \<open>calculateDelivery\<close> (src/unnamed/part_000, lines 1586 to 1633)\<close>

text \<open>
  This copy has a mode selector and one result. It builds the order date with
  \<open>new Date(orderDateStr)\<close>, and its business loop looks holidays up in its own table.
\<close>

definition businessStep_part_000 :: "int \<Rightarrow> date \<times> int \<Rightarrow> date \<times> int" where
  "businessStep_part_000 tza s =
     (let currentDate = setDate tza (fst s) (plusNumber (getDate tza (fst s)) 1);
          dayOfWeek = getDay tza currentDate;
          year = getFullYear tza currentDate;
          month = getMonth tza currentDate;
          day = getDate tza currentDate;
          isHol = isHoliday_part_000 year month day
      in if dayOfWeek \<noteq> Some 0 \<and> dayOfWeek \<noteq> Some 6 \<and> isHol = None
         then (currentDate, increment (snd s))
         else (currentDate, snd s))"

partial_function (option) businessLoop_part_000 :: "int \<Rightarrow> int \<Rightarrow> date \<times> int \<Rightarrow> (date \<times> int) option" where
  "businessLoop_part_000 tza leadTime s =
     (if snd s < leadTime then businessLoop_part_000 tza leadTime (businessStep_part_000 tza s)
      else Some s)"

definition calculateDelivery_part_000 ::
    "int \<Rightarrow> (int \<times> int \<times> int) option \<Rightarrow> number \<Rightarrow> string \<Rightarrow> (alertMessage + resultText) option" where
  "calculateDelivery_part_000 tza orderDateStr leadTime mode =
     (case orderDateStr of
        None \<Rightarrow> Some (Inl SelectOrderDate)
      | Some ymd \<Rightarrow>
          (case leadTime of
             None \<Rightarrow> Some (Inl EnterLeadTime)
           | Some n \<Rightarrow>
               if n = 0 \<or> n < 1 then Some (Inl EnterLeadTime)
               else
                 (let orderDate = Date_parse ymd
                  in if mode = ''business''
                     then (case businessLoop_part_000 tza n (orderDate, 0) of
                             None \<Rightarrow> None
                           | Some (currentDate, businessDays) \<Rightarrow>
                               Some (Inr (formatResult tza currentDate)))
                     else Some (Inr (formatResult tza (calendarDate tza orderDate n))))))"


section \<open>The vocabulary of the specification\<close>

text \<open>
  The specification speaks of calendar dates, of a holiday table keyed by calendar
  date, of business days and of holiday-aware days. These definitions follow its
  words; the theorems below compare the code with them.
\<close>

text \<open>The local day number of a time value, and the calendar date (month 1 to 12) of a day.\<close>

definition localDay :: "int \<Rightarrow> int \<Rightarrow> int" where
  "localDay tza t = Day (LocalTime tza t)"

definition calendarDateOfDay :: "int \<Rightarrow> int \<times> int \<times> int" where
  "calendarDateOfDay D = (YearFromDay D, MonthFromDay D + 1, DateFromDay D)"

text \<open>
  The holiday table as a map from calendar dates: every key \<open>YYYY-MM-DD\<close> of the source
  table is read as a year, a month from 1 to 12 and a day.
\<close>

definition isDigit :: "char \<Rightarrow> bool" where
  "isDigit c = (c \<in> set digitChars)"

definition digitValue :: "char \<Rightarrow> int" where
  "digitValue c = int (length (takeWhile (\<lambda>x. x \<noteq> c) digitChars))"

definition readDigits :: "string \<Rightarrow> int" where
  "readDigits ds = foldl (\<lambda>a c. 10 * a + digitValue c) 0 ds"

definition readInt :: "string \<Rightarrow> int \<times> string" where
  "readInt s =
     (case s of
        [] \<Rightarrow> (0, [])
      | c # r \<Rightarrow>
          if c = CHR ''-'' then (- readDigits (takeWhile isDigit r), dropWhile isDigit r)
          else (readDigits (takeWhile isDigit s), dropWhile isDigit s))"

definition parseDateKey :: "string \<Rightarrow> int \<times> int \<times> int" where
  "parseDateKey k =
     (let (y, r1) = readInt k;
          (m, r2) = readInt (tl r1);
          (d, r3) = readInt (tl r2)
      in (y, m, d))"

definition HolidayTable :: "int \<times> int \<times> int \<Rightarrow> holidayName option" where
  "HolidayTable = map_of (map (\<lambda>(k, name). (parseDateKey k, name)) holidays)"

definition HolidayTable_part_000 :: "int \<times> int \<times> int \<Rightarrow> holidayName option" where
  "HolidayTable_part_000 = map_of (map (\<lambda>(k, name). (parseDateKey k, name)) holidays_part_000)"

text \<open>
  A business day is neither a Saturday, nor a Sunday, nor a listed holiday; a
  holiday-aware day is a day that is not a listed holiday.
\<close>

definition businessDay :: "(int \<times> int \<times> int \<Rightarrow> holidayName option) \<Rightarrow> int \<Rightarrow> bool" where
  "businessDay table D =
     (WeekDayOfDay D \<noteq> 0 \<and> WeekDayOfDay D \<noteq> 6 \<and> table (calendarDateOfDay D) = None)"

definition holidayAwareDay :: "(int \<times> int \<times> int \<Rightarrow> holidayName option) \<Rightarrow> int \<Rightarrow> bool" where
  "holidayAwareDay table D = (table (calendarDateOfDay D) = None)"


section \<open>Properties of the hourglass model\<close>

lemma lowerVolume_calc: "lowerVolume (calculateSandHeights p) = max 0 (min 1 p)"
  by (simp add: calculateSandHeights_def Let_def)

lemma upperVolume_calc: "upperVolume (calculateSandHeights p) = 1 - max 0 (min 1 p)"
  by (simp add: calculateSandHeights_def Let_def)

lemma volumeToHeight_powr:
  "0 \<le> v \<Longrightarrow> v \<le> 1 \<Longrightarrow> volumeToHeight v ty = v powr (7 / 10)"
  by (simp add: volumeToHeight_def VOLUME_CURVE_EXPONENT_def)

lemma lowerHeight_calc:
  "lowerHeight (calculateSandHeights p) = (max 0 (min 1 p)) powr (7 / 10)"
  by (simp add: calculateSandHeights_def Let_def volumeToHeight_powr)

lemma upperHeight_calc:
  "upperHeight (calculateSandHeights p) = (1 - max 0 (min 1 p)) powr (7 / 10)"
  by (simp add: calculateSandHeights_def Let_def volumeToHeight_powr)



lemma lowerHeight_mono:
  "p1 \<le> p2 \<Longrightarrow> lowerHeight (calculateSandHeights p1) \<le> lowerHeight (calculateSandHeights p2)"
  unfolding lowerHeight_calc by (intro powr_mono2) auto

lemma upperHeight_antimono:
  "p1 \<le> p2 \<Longrightarrow> upperHeight (calculateSandHeights p2) \<le> upperHeight (calculateSandHeights p1)"
  unfolding upperHeight_calc by (intro powr_mono2) auto

text \<open>
  C5. The heights are monotone in the progress: for \<open>p1 < p2\<close> in the interval from 0
  to 1 the lower height does not decrease and the upper height does not increase;
  each height is the volume of its chamber raised to the fixed exponent 0.7.
\<close>

theorem C5_heights_monotone:
  assumes "0 \<le> p1" and "p1 < p2" and "p2 \<le> 1"
  shows "lowerHeight (calculateSandHeights p1) \<le> lowerHeight (calculateSandHeights p2)
   \<and> upperHeight (calculateSandHeights p1) \<ge> upperHeight (calculateSandHeights p2)
   \<and> lowerHeight (calculateSandHeights p1)
       = lowerVolume (calculateSandHeights p1) powr VOLUME_CURVE_EXPONENT
   \<and> upperHeight (calculateSandHeights p1)
       = upperVolume (calculateSandHeights p1) powr VOLUME_CURVE_EXPONENT
   \<and> lowerHeight (calculateSandHeights p2)
       = lowerVolume (calculateSandHeights p2) powr VOLUME_CURVE_EXPONENT
   \<and> upperHeight (calculateSandHeights p2)
       = upperVolume (calculateSandHeights p2) powr VOLUME_CURVE_EXPONENT
   \<and> VOLUME_CURVE_EXPONENT = 7 / 10"
proof -
  from assms have le: "p1 \<le> p2" by simp
  show ?thesis
    using lowerHeight_mono [OF le] upperHeight_antimono [OF le]
    by (simp add: lowerHeight_calc upperHeight_calc lowerVolume_calc upperVolume_calc
        VOLUME_CURVE_EXPONENT_def)
qed

theorem C5_heights_monotone_witness:
  "lowerHeight (calculateSandHeights (1 / 4)) \<le> lowerHeight (calculateSandHeights (1 / 2))
   \<and> upperHeight (calculateSandHeights (1 / 4)) \<ge> upperHeight (calculateSandHeights (1 / 2))"
  using C5_heights_monotone [of "1 / 4" "1 / 2"] by simp

text \<open>
  C6. The reference points: at progress 0 the upper height is 1 and the lower height
  is 0, at progress 1 the upper height is 0 and the lower height is 1, and at
  progress 0.5 both heights are \<open>0.5 ^ 0.7\<close>.
\<close>

theorem C6_reference_points:
  "upperHeight (calculateSandHeights 0) = 1
   \<and> lowerHeight (calculateSandHeights 0) = 0
   \<and> upperHeight (calculateSandHeights 1) = 0
   \<and> lowerHeight (calculateSandHeights 1) = 1
   \<and> upperHeight (calculateSandHeights (1 / 2)) = (1 / 2) powr (7 / 10)
   \<and> lowerHeight (calculateSandHeights (1 / 2)) = (1 / 2) powr (7 / 10)"
  by (simp add: calculateSandHeights_def volumeToHeight_def VOLUME_CURVE_EXPONENT_def Let_def)

subsection \<open>The heights when the subtraction is rounded\<close>

lemma floor_log2:
  assumes "2 powr of_int k \<le> x" and "x < 2 powr of_int (k + 1)"
  shows "\<lfloor>log 2 x\<rfloor> = k"
proof -
  have pos: "0 < x" using assms(1) powr_gt_zero [of 2 "of_int k"] by linarith
  have "of_int k \<le> log 2 x" using assms(1) pos by (simp add: le_log_iff)
  moreover have "log 2 x < of_int (k + 1)" using assms(2) pos by (simp add: log_less_iff)
  ultimately show ?thesis by (simp add: floor_eq_iff)
qed


lemma roundEven_int: "roundEven (of_int n) = n"
  by (simp add: roundEven_def)

text \<open>
  The rounding of a number whose binade is known: this is how \<open>roundDouble\<close> is
  evaluated at a given input.
\<close>

lemma roundDouble_binade:
  assumes "2 powr of_int k \<le> x" and "x < 2 powr of_int (k + 1)" and "- 1022 \<le> k"
  shows "roundDouble x = of_int (roundEven (x / 2 powr of_int (k - 52))) * 2 powr of_int (k - 52)"
proof -
  have pos: "0 < x" using assms(1) powr_gt_zero [of 2 "of_int k"] by linarith
  have "\<lfloor>log 2 \<bar>x\<bar>\<rfloor> = k" using floor_log2 [OF assms(1,2)] pos by simp
  then show ?thesis using pos assms(3) by (simp add: roundDouble_def Let_def max_def)
qed




lemma roundDouble_one: "roundDouble 1 = 1"
proof -
  have "roundDouble 1 = of_int (roundEven (1 / 2 powr of_int (0 - 52))) * 2 powr of_int (0 - 52)"
    by (rule roundDouble_binade) simp_all
  moreover have "(1::real) / 2 powr of_int (0 - 52) = of_int (2 ^ 52)"
    by (simp add: powr_neg_numeral)
  ultimately show ?thesis by (simp only: roundEven_int) (simp add: powr_neg_numeral)
qed

lemma roundDouble_half: "roundDouble (1 / 2) = 1 / 2"
proof -
  have "roundDouble (1 / 2) = of_int (roundEven ((1 / 2) / 2 powr of_int (- 1 - 52))) * 2 powr of_int (- 1 - 52)"
    by (rule roundDouble_binade) (simp_all add: powr_minus)
  moreover have "((1::real) / 2) / 2 powr of_int (- 1 - 52) = of_int (2 ^ 52)"
    by (simp add: powr_neg_numeral)
  ultimately show ?thesis by (simp only: roundEven_int) (simp add: powr_neg_numeral)
qed
















text \<open>
  Where the subtraction is exact the two models of \<open>calculateSandHeights\<close> return the
  same object; the reference points 0, 0.5 and 1 are such inputs.
\<close>

lemma double_agrees:
  assumes "roundDouble (1 - max 0 (min 1 p)) = 1 - max 0 (min 1 p)"
  shows "calculateSandHeights_double p = calculateSandHeights p"
  using assms by (simp add: calculateSandHeights_double_def calculateSandHeights_def Let_def)

lemma double_reference_points:
  "calculateSandHeights_double 0 = calculateSandHeights 0"
  "calculateSandHeights_double (1 / 2) = calculateSandHeights (1 / 2)"
  "calculateSandHeights_double 1 = calculateSandHeights 1"
proof -
  show "calculateSandHeights_double 0 = calculateSandHeights 0"
    by (rule double_agrees) (simp add: roundDouble_one)
  show "calculateSandHeights_double (1 / 2) = calculateSandHeights (1 / 2)"
    using roundDouble_half by (intro double_agrees) simp
  show "calculateSandHeights_double 1 = calculateSandHeights 1"
    by (rule double_agrees) (simp add: roundDouble_def)
qed




section \<open>Properties of the calendar functions\<close>

text \<open>
  The executable \<open>YearFromDay\<close> is the year of the ECMAScript specification, the largest
  year that starts on or before the day; \<open>MakeDay\<close> applied to the year and month of a
  day gives back that day, shifted by the change of the date.
\<close>

lemma div_lower: "0 < c \<Longrightarrow> a - (c - 1) \<le> c * (a div c)" for a c :: int
  using mult_div_mod_eq [of c a] pos_mod_bound [of c a] by linarith

lemma div_upper: "0 < c \<Longrightarrow> c * (a div c) \<le> a" for a c :: int
  using mult_div_mod_eq [of c a] pos_mod_sign [of c a] by linarith

lemma div_succ:
  fixes a c :: int
  assumes "0 < c"
  shows "(a + 1) div c = a div c + (if (a + 1) mod c = 0 then 1 else 0)"
proof -
  define q where "q = a div c"
  define r where "r = a mod c"
  have a: "a = c * q + r" and r0: "0 \<le> r" and rc: "r < c"
    using assms by (simp_all add: q_def r_def)
  show ?thesis
  proof (cases "r + 1 < c")
    case True
    have "a + 1 = c * q + (r + 1)" using a by simp
    with True r0 have "(a + 1) div c = q" and "(a + 1) mod c = r + 1"
      by (auto intro: int_div_pos_eq int_mod_pos_eq)
    with r0 show ?thesis by (simp add: q_def)
  next
    case False
    with rc have "a + 1 = c * (q + 1) + 0" using a by (simp add: algebra_simps)
    with assms have "(a + 1) div c = q + 1" and "(a + 1) mod c = 0"
      by (auto intro: int_div_pos_eq int_mod_pos_eq)
    then show ?thesis by (simp add: q_def)
  qed
qed

lemma DayFromYear_Suc: "DayFromYear (y + 1) = DayFromYear y + DaysInYear y"
proof -
  have m4: "(y - 1968) mod 4 = y mod 4"
    using mod_mult_self2 [of y 4 "- 492"] by simp
  have m100: "(y - 1900) mod 100 = y mod 100"
    using mod_mult_self2 [of y 100 "- 19"] by simp
  have m400: "(y - 1600) mod 400 = y mod 400"
    using mod_mult_self2 [of y 400 "- 4"] by simp
  have i1: "y mod 400 = 0 \<Longrightarrow> y mod 100 = 0"
    using mod_mod_cancel [of 100 400 y] by simp
  have i2: "y mod 100 = 0 \<Longrightarrow> y mod 4 = 0"
    using mod_mod_cancel [of 4 100 y] by simp
  have a: "(y - 1968) div 4 = (y - 1969) div 4 + (if y mod 4 = 0 then 1 else 0)"
    using div_succ [of 4 "y - 1969"] m4 by simp
  have b: "(y - 1900) div 100 = (y - 1901) div 100 + (if y mod 100 = 0 then 1 else 0)"
    using div_succ [of 100 "y - 1901"] m100 by simp
  have c: "(y - 1600) div 400 = (y - 1601) div 400 + (if y mod 400 = 0 then 1 else 0)"
    using div_succ [of 400 "y - 1601"] m400 by simp
  have "DayFromYear (y + 1)
      = 365 * (y - 1969) + (y - 1968) div 4 - (y - 1900) div 100 + (y - 1600) div 400"
    by (simp add: DayFromYear_def)
  then show ?thesis
    using i1 i2 by (auto simp: a b c DayFromYear_def DaysInYear_def)
qed

lemma DayFromYear_lower: "146097 * y - 287811596 \<le> 400 * DayFromYear y"
proof -
  define A where "A = (y - 1969) div 4"
  define B where "B = (y - 1901) div 100"
  define C where "C = (y - 1601) div 400"
  have "y - 1972 \<le> 4 * A"
    unfolding A_def using div_lower [of 4 "y - 1969"] by simp
  moreover have "100 * B \<le> y - 1901"
    unfolding B_def using div_upper [of 100 "y - 1901"] by simp
  moreover have "y - 2000 \<le> 400 * C"
    unfolding C_def using div_lower [of 400 "y - 1601"] by simp
  ultimately show ?thesis
    unfolding DayFromYear_def A_def [symmetric] B_def [symmetric] C_def [symmetric]
    by simp
qed

lemma DayFromYear_upper: "400 * DayFromYear y \<le> 146097 * y - 287810501"
proof -
  define A where "A = (y - 1969) div 4"
  define B where "B = (y - 1901) div 100"
  define C where "C = (y - 1601) div 400"
  have "4 * A \<le> y - 1969"
    unfolding A_def using div_upper [of 4 "y - 1969"] by simp
  moreover have "y - 2000 \<le> 100 * B"
    unfolding B_def using div_lower [of 100 "y - 1901"] by simp
  moreover have "400 * C \<le> y - 1601"
    unfolding C_def using div_upper [of 400 "y - 1601"] by simp
  ultimately show ?thesis
    unfolding DayFromYear_def A_def [symmetric] B_def [symmetric] C_def [symmetric]
    by simp
qed

lemma YearFromDay_bounds:
  "DayFromYear (YearFromDay d) \<le> d \<and> d < DayFromYear (YearFromDay d + 1)"
proof -
  define k where "k = (400 * d) div 146097"
  have k1: "146097 * k \<le> 400 * d"
    unfolding k_def using div_upper [of 146097 "400 * d"] by simp
  have k2: "400 * d < 146097 * k + 146097"
    unfolding k_def using div_lower [of 146097 "400 * d"] by simp
  have A: "d < DayFromYear (k + 1972)"
    using DayFromYear_lower [of "k + 1972"] k2 by simp
  have B: "DayFromYear (k + 1969) \<le> d"
    using DayFromYear_upper [of "k + 1969"] k1 by simp
  have e1: "1970 + k + 1 + 1 = k + 1972" and e2: "1970 + k - 1 = k + 1969"
    by simp_all
  show ?thesis
    unfolding YearFromDay_def Let_def k_def [symmetric]
    using A B by (simp add: e1 e2 add.commute)
qed

lemma DayFromYear_strict_mono:
  assumes "y < y'"
  shows "DayFromYear y < DayFromYear y'"
proof -
  have "400 * DayFromYear y < 400 * DayFromYear y'"
    using DayFromYear_upper [of y] DayFromYear_lower [of y'] assms by simp
  then show ?thesis by simp
qed

lemma DayFromYear_mono: "y \<le> y' \<Longrightarrow> DayFromYear y \<le> DayFromYear y'"
  using DayFromYear_strict_mono [of y y'] by (cases "y = y'") auto

lemma YearFromDay_largest: "DayFromYear y \<le> d \<longleftrightarrow> y \<le> YearFromDay d"
proof
  assume h: "DayFromYear y \<le> d"
  show "y \<le> YearFromDay d"
  proof (rule ccontr)
    assume "\<not> y \<le> YearFromDay d"
    then have "YearFromDay d + 1 \<le> y" by simp
    then have "DayFromYear (YearFromDay d + 1) \<le> DayFromYear y"
      by (rule DayFromYear_mono)
    with h YearFromDay_bounds [of d] show False by simp
  qed
next
  assume "y \<le> YearFromDay d"
  then have "DayFromYear y \<le> DayFromYear (YearFromDay d)"
    by (rule DayFromYear_mono)
  with YearFromDay_bounds [of d] show "DayFromYear y \<le> d" by simp
qed

lemma YearFromDay_unique:
  "DayFromYear y \<le> d \<Longrightarrow> d < DayFromYear (y + 1) \<Longrightarrow> YearFromDay d = y"
  using YearFromDay_largest [of y d] YearFromDay_largest [of "y + 1" d] by simp

lemma DayWithinYear_bounds:
  "0 \<le> DayWithinYear d \<and> DayWithinYear d < DaysInYear (YearFromDay d)"
  using YearFromDay_bounds [of d] DayFromYear_Suc [of "YearFromDay d"]
  by (simp add: DayWithinYear_def)

lemma MonthFromDay_range: "0 \<le> MonthFromDay d \<and> MonthFromDay d \<le> 11"
  by (simp add: MonthFromDay_def Let_def)

lemma MakeDay_roundtrip:
  "MakeDay (YearFromDay D) (MonthFromDay D) dt = D - DateFromDay D + dt"
proof -
  have "MonthFromDay D div 12 = 0" and "MonthFromDay D mod 12 = MonthFromDay D"
    using MonthFromDay_range [of D] by simp_all
  then show ?thesis
    by (simp add: MakeDay_def DateFromDay_def DayWithinYear_def InLeapYearOfDay_def Let_def)
qed

lemma Day_shift: "Day (t + k * msPerDay) = Day t + k"
  by (simp add: Day_def msPerDay_def)

lemma TimeWithinDay_shift: "TimeWithinDay (t + k * msPerDay) = TimeWithinDay t"
  by (simp add: TimeWithinDay_def msPerDay_def)

lemma MakeDate_Day: "MakeDate (Day t + k) (TimeWithinDay t) = t + k * msPerDay"
  by (simp add: MakeDate_def Day_def TimeWithinDay_def algebra_simps)

lemma localDay_shift: "localDay tza (t + k * msPerDay) = localDay tza t + k"
proof -
  have "t + k * msPerDay + tza = (t + tza) + k * msPerDay" by simp
  then show ?thesis
    by (simp only: localDay_def LocalTime_def Day_shift)
qed

text \<open>The idiom \<open>d.setDate(d.getDate() + k)\<close> moves a valid date by \<open>k\<close> days.\<close>

lemma setDate_getDate_plus:
  "setDate tza (Some t) (plusNumber (getDate tza (Some t)) k) = TimeClip (t + k * msPerDay)"
proof -
  let ?lt = "LocalTime tza t"
  have "MakeDay (YearFromTime ?lt) (MonthFromTime ?lt) (DateFromTime ?lt + k) = Day ?lt + k"
    by (simp add: YearFromTime_def MonthFromTime_def DateFromTime_def MakeDay_roundtrip)
  then have "MakeDate (MakeDay (YearFromTime ?lt) (MonthFromTime ?lt) (DateFromTime ?lt + k))
      (TimeWithinDay ?lt) = ?lt + k * msPerDay"
    by (simp only: MakeDate_Day)
  then show ?thesis
    by (simp add: setDate_def getDate_def plusNumber_def Let_def UTC_def LocalTime_def)
qed

lemma setDate_invalid: "setDate tza None x = None"
  by (simp add: setDate_def)

lemma getters_Some:
  "getFullYear tza (Some t) = Some (YearFromDay (localDay tza t))"
  "getMonth tza (Some t) = Some (MonthFromDay (localDay tza t))"
  "getDate tza (Some t) = Some (DateFromDay (localDay tza t))"
  "getDay tza (Some t) = Some (WeekDayOfDay (localDay tza t))"
  by (simp_all add: getFullYear_def getMonth_def getDate_def getDay_def localDay_def
      YearFromTime_def MonthFromTime_def DateFromTime_def WeekDay_def)

lemma getters_None:
  "getFullYear tza None = None" "getMonth tza None = None"
  "getDate tza None = None" "getDay tza None = None"
  by (simp_all add: getFullYear_def getMonth_def getDate_def getDay_def)

text \<open>
  \<open>MakeDay\<close> finds the day whose year, month and date are the given ones, as the
  ECMAScript specification asks, for a date from 1 to 28.
\<close>

lemma monthStart_bounds:
  "0 \<le> m \<Longrightarrow> m \<le> 11 \<Longrightarrow> 0 \<le> l \<Longrightarrow> l \<le> 1 \<Longrightarrow>
   0 \<le> monthStart m l \<and> monthStart m l + 28 \<le> 365 + l"
  by (simp add: monthStart_def)

lemma MakeDay_year:
  assumes "1 \<le> dt" "dt \<le> 28"
  shows "YearFromDay (MakeDay y m dt) = y + m div 12"
proof -
  let ?ym = "y + m div 12" and ?mn = "m mod 12"
  let ?l = "if DaysInYear ?ym = 366 then 1 else 0 :: int"
  have r: "0 \<le> ?mn" "?mn \<le> 11" by simp_all
  have l: "0 \<le> ?l" "?l \<le> 1" by simp_all
  have d: "DaysInYear ?ym = 365 + ?l"
    by (simp add: DaysInYear_def)
  from monthStart_bounds [OF r l]
  have b: "0 \<le> monthStart ?mn ?l" "monthStart ?mn ?l + 28 \<le> 365 + ?l" by simp_all
  have lo: "DayFromYear ?ym \<le> MakeDay y m dt"
    using b assms by (simp add: MakeDay_def Let_def)
  have hi: "MakeDay y m dt < DayFromYear (?ym + 1)"
    using b assms d by (simp add: MakeDay_def Let_def DayFromYear_Suc)
  from lo hi show ?thesis by (rule YearFromDay_unique)
qed


lemma MakeDay_first:
  "YearFromDay (MakeDay y m 1) = y + m div 12
   \<and> MonthFromDay (MakeDay y m 1) = m mod 12
   \<and> DateFromDay (MakeDay y m 1) = 1"
proof -
  let ?ym = "y + m div 12" and ?mn = "m mod 12"
  let ?l = "if DaysInYear ?ym = 366 then 1 else 0 :: int"
  have yr: "YearFromDay (MakeDay y m 1) = ?ym"
    by (rule MakeDay_year) simp_all
  have w: "DayWithinYear (MakeDay y m 1) = monthStart ?mn ?l"
    unfolding DayWithinYear_def yr by (simp add: MakeDay_def Let_def)
  have lp: "InLeapYearOfDay (MakeDay y m 1) = ?l"
    unfolding InLeapYearOfDay_def yr by simp
  have small: "0 \<le> x \<and> x \<le> 11 \<longrightarrow> x = 0 \<or> x = 1 \<or> x = 2 \<or> x = 3 \<or> x = 4 \<or> x = 5
      \<or> x = 6 \<or> x = 7 \<or> x = 8 \<or> x = 9 \<or> x = 10 \<or> x = 11" for x :: int
    by presburger
  have "0 \<le> ?mn \<and> ?mn \<le> 11" by simp
  then have cases: "?mn = 0 \<or> ?mn = 1 \<or> ?mn = 2 \<or> ?mn = 3 \<or> ?mn = 4 \<or> ?mn = 5 \<or> ?mn = 6
      \<or> ?mn = 7 \<or> ?mn = 8 \<or> ?mn = 9 \<or> ?mn = 10 \<or> ?mn = 11"
    using small [of ?mn] by blast
  have mo: "MonthFromDay (MakeDay y m 1) = ?mn"
    unfolding MonthFromDay_def w lp Let_def using cases
    by (elim disjE) (simp_all add: monthStart_def)
  have "DateFromDay (MakeDay y m 1) = 1"
    unfolding DateFromDay_def mo w lp by simp
  with yr mo show ?thesis by simp
qed

section \<open>Properties of the date keys\<close>

declare digitsOf.simps [simp del]

lemma digitChars_nth_isDigit: "n < 10 \<Longrightarrow> isDigit (digitChars ! n)"
  unfolding isDigit_def by (rule nth_mem) (simp add: digitChars_def)

lemma digitValue_nth: "n < 10 \<Longrightarrow> digitValue (digitChars ! n) = int n"
  by (auto simp: less_Suc_eq numeral_eq_Suc digitValue_def digitChars_def)

lemma digitsOf_all_digits: "\<forall>c \<in> set (digitsOf n). isDigit c"
proof (induction n rule: digitsOf.induct)
  case (1 n)
  show ?case
  proof (cases "n < 10")
    case True
    then show ?thesis
      by (subst digitsOf.simps) (simp add: digitChars_nth_isDigit)
  next
    case False
    with "1" show ?thesis
      by (subst digitsOf.simps) (simp add: digitChars_nth_isDigit)
  qed
qed

lemma digitsOf_nonempty: "digitsOf n \<noteq> []"
  by (subst digitsOf.simps) simp

lemma readDigits_snoc: "readDigits (ds @ [c]) = 10 * readDigits ds + digitValue c"
  by (simp add: readDigits_def)

lemma readDigits_digitsOf: "readDigits (digitsOf n) = int n"
proof (induction n rule: digitsOf.induct)
  case (1 n)
  show ?case
  proof (cases "n < 10")
    case True
    then show ?thesis
      by (subst digitsOf.simps) (simp add: readDigits_def digitValue_nth)
  next
    case False
    with "1" have "readDigits (digitsOf (n div 10)) = int (n div 10)" by simp
    with False show ?thesis
      by (subst digitsOf.simps) (simp add: readDigits_snoc digitValue_nth zdiv_int zmod_int)
  qed
qed

lemma isDigit_minus: "\<not> isDigit (CHR ''-'')"
  by (simp add: isDigit_def digitChars_def)

lemma isDigit_zero: "isDigit (CHR ''0'')"
  by (simp add: isDigit_def digitChars_def)

lemma digitValue_zero: "digitValue (CHR ''0'') = 0"
  by (simp add: digitValue_def digitChars_def)

lemma readDigits_zeros: "readDigits (replicate k (CHR ''0'') @ ds) = readDigits ds"
proof -
  have "foldl (\<lambda>a c. 10 * a + digitValue c) 0 (replicate k (CHR ''0'')) = 0"
    by (induction k) (simp_all add: digitValue_zero)
  then show ?thesis by (simp add: readDigits_def)
qed


lemma takeWhile_digits:
  assumes "\<forall>c \<in> set ds. isDigit c" and "rest = [] \<or> \<not> isDigit (hd rest)"
  shows "takeWhile isDigit (ds @ rest) = ds" and "dropWhile isDigit (ds @ rest) = rest"
proof -
  have t: "takeWhile isDigit rest = []" and d: "dropWhile isDigit rest = rest"
    using assms(2) by (cases rest; simp)+
  show "takeWhile isDigit (ds @ rest) = ds"
    using assms(1) t by (simp add: takeWhile_append2)
  show "dropWhile isDigit (ds @ rest) = rest"
    using assms(1) d by (simp add: dropWhile_append2)
qed

text \<open>
  Reading back a printed integer, also when it was padded with zeros, and whatever
  follows it, as long as that does not start with a digit.
\<close>

lemma readInt_padStart:
  assumes "rest = [] \<or> \<not> isDigit (hd rest)" and "k \<le> 2"
  shows "readInt (padStart (numberToString (Some n)) k (CHR ''0'') @ rest) = (n, rest)"
proof (cases "n < 0")
  case True
  define ds where "ds = digitsOf (nat (- n))"
  have all: "\<forall>c \<in> set ds. isDigit c"
    unfolding ds_def by (rule digitsOf_all_digits)
  have ne: "ds \<noteq> []"
    unfolding ds_def by (rule digitsOf_nonempty)
  have val: "readDigits ds = - n"
    unfolding ds_def using True by (simp add: readDigits_digitsOf)
  have "k - length (CHR ''-'' # ds) = 0"
    using ne assms(2) by (cases ds) simp_all
  then have "padStart (numberToString (Some n)) k (CHR ''0'') = CHR ''-'' # ds"
    using True by (simp add: padStart_def numberToString_def ds_def)
  then show ?thesis
    using takeWhile_digits [OF all assms(1)] val by (simp add: readInt_def)
next
  case False
  define ds where "ds = digitsOf (nat n)"
  have all: "\<forall>c \<in> set ds. isDigit c"
    unfolding ds_def by (rule digitsOf_all_digits)
  have ne: "ds \<noteq> []"
    unfolding ds_def by (rule digitsOf_nonempty)
  have val: "readDigits ds = n"
    unfolding ds_def using False by (simp add: readDigits_digitsOf)
  define zs where "zs = replicate (k - length ds) (CHR ''0'') @ ds"
  have p: "padStart (numberToString (Some n)) k (CHR ''0'') = zs"
    using False by (simp add: padStart_def numberToString_def ds_def zs_def)
  have zall: "\<forall>c \<in> set zs. isDigit c"
    using all by (auto simp: zs_def isDigit_zero)
  have zne: "zs \<noteq> []" using ne by (simp add: zs_def)
  have zval: "readDigits zs = n"
    unfolding zs_def using val by (simp add: readDigits_zeros)
  obtain c r where cr: "zs = c # r" using zne by (cases zs) auto
  then have "isDigit c" using zall by simp
  then have "c \<noteq> CHR ''-''" using isDigit_minus by auto
  then have "readInt (zs @ rest) = (readDigits (takeWhile isDigit (zs @ rest)), dropWhile isDigit (zs @ rest))"
    by (simp add: readInt_def cr)
  then show ?thesis
    using takeWhile_digits [OF zall assms(1)] zval p by simp
qed


lemma padStart_0: "padStart s 0 c = s"
  by (simp add: padStart_def)

text \<open>The key that \<open>isHoliday\<close> builds, for integer arguments.\<close>

lemma parseDateKey_dateStr:
  "parseDateKey (numberToString (Some y) @ ''-''
      @ padStart (numberToString (Some m)) 2 (CHR ''0'') @ ''-''
      @ padStart (numberToString (Some d)) 2 (CHR ''0'')) = (y, m, d)"
proof -
  let ?D = "padStart (numberToString (Some d)) 2 (CHR ''0'')"
  let ?M = "padStart (numberToString (Some m)) 2 (CHR ''0'')"
  have r3: "readInt ?D = (d, [])"
    using readInt_padStart [of "[]" 2 d] by simp
  have r2: "readInt (?M @ CHR ''-'' # ?D) = (m, CHR ''-'' # ?D)"
    by (rule readInt_padStart) (simp_all add: isDigit_minus)
  have r1: "readInt (numberToString (Some y) @ CHR ''-'' # ?M @ CHR ''-'' # ?D)
      = (y, CHR ''-'' # ?M @ CHR ''-'' # ?D)"
    using readInt_padStart [of "CHR ''-'' # ?M @ CHR ''-'' # ?D" 0 y]
    by (simp add: isDigit_minus padStart_0)
  show ?thesis
    by (simp add: parseDateKey_def r1 r2 r3)
qed

lemma keys_reprint_holidays:
  "list_all (\<lambda>(k, name). (case parseDateKey k of (y, m, d) \<Rightarrow>
      numberToString (Some y) @ ''-'' @ padStart (numberToString (Some m)) 2 (CHR ''0'') @ ''-''
        @ padStart (numberToString (Some d)) 2 (CHR ''0'')) = k) holidays"
  by (simp add: holidays_def parseDateKey_def readInt_def readDigits_def digitValue_def
      digitChars_def isDigit_def numberToString_def padStart_def
      digitsOf.simps [of "numeral n" for n] digitsOf.simps [of "Suc 0"])


lemma holidays_distinct_keys: "distinct (map fst holidays)"
  by (simp add: holidays_def)

lemma holidays_part_000_prefix: "holidays_part_000 = take 37 holidays"
  by (simp add: holidays_part_000_def holidays_def)

lemma keys_reprint_holidays_part_000:
  "list_all (\<lambda>(k, name). (case parseDateKey k of (y, m, d) \<Rightarrow>
      numberToString (Some y) @ ''-'' @ padStart (numberToString (Some m)) 2 (CHR ''0'') @ ''-''
        @ padStart (numberToString (Some d)) 2 (CHR ''0'')) = k) holidays_part_000"
  using keys_reprint_holidays unfolding holidays_part_000_prefix list_all_iff
  by (meson in_set_takeD)

lemma map_of_reindex:
  assumes "\<And>k v. (k, v) \<in> set tbl \<Longrightarrow> (f x = k \<longleftrightarrow> g k = x)"
  shows "map_of tbl (f x) = map_of (map (\<lambda>(k, v). (g k, v)) tbl) x"
  using assms
proof (induction tbl)
  case Nil
  then show ?case by simp
next
  case (Cons kv tbl)
  obtain k v where kv: "kv = (k, v)" by (cases kv)
  have here: "f x = k \<longleftrightarrow> g k = x"
    using Cons.prems [of k v] by (simp add: kv)
  have rest: "map_of tbl (f x) = map_of (map (\<lambda>(k, v). (g k, v)) tbl) x"
  proof (rule Cons.IH)
    fix k' v'
    assume "(k', v') \<in> set tbl"
    then have "(k', v') \<in> set (kv # tbl)" by simp
    then show "f x = k' \<longleftrightarrow> g k' = x" by (rule Cons.prems)
  qed
  show ?case
    using here rest by (auto simp: kv)
qed

lemma lookup_by_calendar_date:
  assumes "list_all (\<lambda>(k, name). (case parseDateKey k of (y, m, d) \<Rightarrow>
      numberToString (Some y) @ ''-'' @ padStart (numberToString (Some m)) 2 (CHR ''0'') @ ''-''
        @ padStart (numberToString (Some d)) 2 (CHR ''0'')) = k) tbl"
  shows "map_of tbl (numberToString (Some y) @ ''-''
            @ padStart (numberToString (plusNumber (Some m) 1)) 2 (CHR ''0'') @ ''-''
            @ padStart (numberToString (Some d)) 2 (CHR ''0''))
         = map_of (map (\<lambda>(k, name). (parseDateKey k, name)) tbl) (y, m + 1, d)"
proof -
  let ?f = "\<lambda>(y, m, d). numberToString (Some y) @ ''-''
            @ padStart (numberToString (Some m)) 2 (CHR ''0'') @ ''-''
            @ padStart (numberToString (Some d)) 2 (CHR ''0'')"
  have "map_of tbl (?f (y, m + 1, d))
      = map_of (map (\<lambda>(k, name). (parseDateKey k, name)) tbl) (y, m + 1, d)"
  proof (rule map_of_reindex)
    fix k v
    assume "(k, v) \<in> set tbl"
    with assms have c: "?f (parseDateKey k) = k"
      by (auto simp: list_all_iff)
    show "?f (y, m + 1, d) = k \<longleftrightarrow> parseDateKey k = (y, m + 1, d)"
    proof
      assume "?f (y, m + 1, d) = k"
      then have "parseDateKey k = parseDateKey (?f (y, m + 1, d))" by simp
      moreover have "parseDateKey (?f (y, m + 1, d)) = (y, m + 1, d)"
        using parseDateKey_dateStr [of y "m + 1" d] by simp
      ultimately show "parseDateKey k = (y, m + 1, d)"
        by (simp only:)
    next
      assume "parseDateKey k = (y, m + 1, d)"
      with c show "?f (y, m + 1, d) = k" by simp
    qed
  qed
  then show ?thesis by (simp add: plusNumber_def)
qed

text \<open>
  \<open>isHoliday\<close> with a zero-based month is the lookup of the calendar date with the
  month counted from one; with \<open>NaN\<close> arguments it finds nothing.
\<close>

lemma isHoliday_HolidayTable:
  "isHoliday (Some y) (Some m) (Some d) = HolidayTable (y, m + 1, d)"
  unfolding isHoliday_def HolidayTable_def Let_def
  by (rule lookup_by_calendar_date [OF keys_reprint_holidays])

lemma isHoliday_part_000_HolidayTable:
  "isHoliday_part_000 (Some y) (Some m) (Some d) = HolidayTable_part_000 (y, m + 1, d)"
  unfolding isHoliday_part_000_def HolidayTable_part_000_def Let_def
  by (rule lookup_by_calendar_date [OF keys_reprint_holidays_part_000])

lemma isHoliday_NaN: "isHoliday None None None = None"
  by (simp add: isHoliday_def holidays_def numberToString_def padStart_def plusNumber_def)

lemma isHoliday_part_000_NaN: "isHoliday_part_000 None None None = None"
  by (simp add: isHoliday_part_000_def holidays_part_000_def numberToString_def padStart_def
      plusNumber_def)

section \<open>Properties of the day-stepping loops\<close>

lemma TimeClip_Some: "TimeClip t = Some t' \<longleftrightarrow> t' = t \<and> \<bar>t\<bar> \<le> maxTime"
  by (auto simp: TimeClip_def)

lemma TimeClip_None: "TimeClip t = None \<longleftrightarrow> maxTime < \<bar>t\<bar>"
  by (simp add: TimeClip_def)

text \<open>
  One pass of each loop body. The candidate day is the day after the current one; an
  invalid candidate is counted, a valid one is counted when it is a business day (a
  holiday-aware day) of the specification.
\<close>

lemma businessStep_Some:
  "businessStep tza (Some t, c) =
     (case TimeClip (t + msPerDay) of
        None \<Rightarrow> (None, increment c)
      | Some t' \<Rightarrow> (Some t', if businessDay HolidayTable (localDay tza t') then increment c else c))"
  using setDate_getDate_plus [of tza t 1]
  by (simp add: businessStep_def Let_def getters_Some getters_None isHoliday_NaN
      isHoliday_HolidayTable businessDay_def calendarDateOfDay_def split: option.split)

lemma businessStep_None: "businessStep tza (None, c) = (None, increment c)"
  by (simp add: businessStep_def Let_def setDate_invalid getters_None isHoliday_NaN)

lemma holidayAwareStep_Some:
  "holidayAwareStep tza (Some t, c) =
     (case TimeClip (t + msPerDay) of
        None \<Rightarrow> (None, increment c)
      | Some t' \<Rightarrow>
          (Some t', if holidayAwareDay HolidayTable (localDay tza t') then increment c else c))"
  using setDate_getDate_plus [of tza t 1]
  by (simp add: holidayAwareStep_def Let_def getters_Some getters_None isHoliday_NaN
      isHoliday_HolidayTable holidayAwareDay_def calendarDateOfDay_def split: option.split)

lemma holidayAwareStep_None: "holidayAwareStep tza (None, c) = (None, increment c)"
  by (simp add: holidayAwareStep_def Let_def setDate_invalid getters_None isHoliday_NaN)

lemma businessStep_part_000_Some:
  "businessStep_part_000 tza (Some t, c) =
     (case TimeClip (t + msPerDay) of
        None \<Rightarrow> (None, increment c)
      | Some t' \<Rightarrow>
          (Some t', if businessDay HolidayTable_part_000 (localDay tza t') then increment c else c))"
  using setDate_getDate_plus [of tza t 1]
  by (simp add: businessStep_part_000_def Let_def getters_Some getters_None
      isHoliday_part_000_NaN isHoliday_part_000_HolidayTable businessDay_def
      calendarDateOfDay_def split: option.split)

lemma businessStep_part_000_None: "businessStep_part_000 tza (None, c) = (None, increment c)"
  by (simp add: businessStep_part_000_def Let_def setDate_invalid getters_None
      isHoliday_part_000_NaN)

text \<open>A loop that meets its exit test after \<open>k\<close> passes returns the state reached then.\<close>

lemma loop_iterate:
  assumes unfold: "\<And>s. loop s = (if cond s then loop (step s) else Some s)"
    and "\<And>j. j < k \<Longrightarrow> cond ((step ^^ j) s)"
    and "\<not> cond ((step ^^ k) s)"
  shows "loop s = Some ((step ^^ k) s)"
  using assms(2,3)
proof (induction k arbitrary: s)
  case 0
  then show ?case by (subst unfold) simp
next
  case (Suc k)
  have c: "cond s" using Suc.prems(1) [of 0] by simp
  have "loop (step s) = Some ((step ^^ k) (step s))"
  proof (rule Suc.IH)
    fix j assume "j < k"
    then have "cond ((step ^^ Suc j) s)" by (intro Suc.prems(1)) simp
    then show "cond ((step ^^ j) (step s))" by (simp add: funpow_swap1)
  next
    show "\<not> cond ((step ^^ k) (step s))"
      using Suc.prems(2) by (simp add: funpow_swap1)
  qed
  with c show ?case
    by (subst unfold) (simp add: funpow_swap1)
qed


lemma increment_exact: "c < 2 ^ 53 \<Longrightarrow> increment c = c + 1"
  by (simp add: increment_def)

lemma upto_snoc: "[a + 1 .. a + int (Suc j)] = [a + 1 .. a + int j] @ [a + int j + 1]"
  using upto_rec2 [of "a + 1" "a + int (Suc j)"] by (simp add: add.commute add.left_commute)

text \<open>
  A day stepper is a loop body that advances the date by one day and counts the days
  that satisfy \<open>P\<close>. After \<open>n\<close> passes from a valid date, and as long as the date stays
  in the range of \<open>Date\<close>, the date is \<open>n\<close> days later and the counter is the number of
  days satisfying \<open>P\<close> among those \<open>n\<close> days.
\<close>

lemma dayStepper_iterate:
  fixes step :: "date \<times> int \<Rightarrow> date \<times> int" and P :: "int \<Rightarrow> bool"
  assumes step: "\<And>t c. step (Some t, c) =
       (case TimeClip (t + msPerDay) of
          None \<Rightarrow> (None, increment c)
        | Some t' \<Rightarrow> (Some t', if P (localDay tza t') then increment c else c))"
    and valid0: "\<bar>t0\<bar> \<le> maxTime"
    and validn: "\<bar>t0 + int n * msPerDay\<bar> \<le> maxTime"
  shows "(step ^^ n) (Some t0, 0) =
     (Some (t0 + int n * msPerDay),
      int (length (filter P [localDay tza t0 + 1 .. localDay tza t0 + int n])))"
proof -
  let ?D = "localDay tza t0"
  have m: "0 < msPerDay" by (simp add: msPerDay_def)
  have "int n * msPerDay \<le> 2 * maxTime"
    using valid0 validn by linarith
  then have nb: "int n \<le> 200000000"
    by (simp add: msPerDay_def maxTime_def)
  have v: "\<bar>t0 + int j * msPerDay\<bar> \<le> maxTime" if "j \<le> n" for j
  proof -
    have "0 \<le> int j * msPerDay" using m by simp
    moreover have "int j * msPerDay \<le> int n * msPerDay"
      using that m by simp
    ultimately show ?thesis using valid0 validn by linarith
  qed
  have "j \<le> n \<Longrightarrow> (step ^^ j) (Some t0, 0) =
     (Some (t0 + int j * msPerDay), int (length (filter P [?D + 1 .. ?D + int j])))" for j
  proof (induction j)
    case 0
    then show ?case by simp
  next
    case (Suc j)
    let ?c = "int (length (filter P [?D + 1 .. ?D + int j]))"
    let ?t = "t0 + int j * msPerDay"
    have IH: "(step ^^ j) (Some t0, 0) = (Some ?t, ?c)"
      using Suc by simp
    have "length (filter P [?D + 1 .. ?D + int j]) \<le> length [?D + 1 .. ?D + int j]"
      by (rule length_filter_le)
    then have "?c \<le> int j" by simp
    with Suc.prems nb have "?c < 2 ^ 53" by simp
    then have inc: "increment ?c = ?c + 1" by (rule increment_exact)
    have t': "?t + msPerDay = t0 + int (Suc j) * msPerDay"
      by (simp add: algebra_simps)
    have clip: "TimeClip (?t + msPerDay) = Some (t0 + int (Suc j) * msPerDay)"
      using v [OF Suc.prems] by (simp add: t' TimeClip_def)
    have day: "localDay tza (t0 + int (Suc j) * msPerDay) = ?D + int j + 1"
      using localDay_shift [of tza t0 "int (Suc j)"] by simp
    have "(step ^^ Suc j) (Some t0, 0) = step (Some ?t, ?c)"
      by (simp add: IH)
    also have "\<dots> = (Some (t0 + int (Suc j) * msPerDay),
        if P (?D + int j + 1) then ?c + 1 else ?c)"
      by (simp only: step clip option.case day inc)
    also have "(if P (?D + int j + 1) then ?c + 1 else ?c)
        = int (length (filter P [?D + 1 .. ?D + int (Suc j)]))"
      unfolding upto_snoc by simp
    finally show ?case .
  qed
  then show ?thesis by simp
qed

text \<open>
  If the \<open>n\<close>-th day after the order date satisfies \<open>P\<close> and is the \<open>leadTime\<close>-th such
  day, the loop returns that day, with the counter at \<open>leadTime\<close>.
\<close>

lemma dayStepper_loop:
  fixes step :: "date \<times> int \<Rightarrow> date \<times> int" and P :: "int \<Rightarrow> bool"
  assumes unfold: "\<And>s. loop s = (if snd s < leadTime then loop (step s) else Some s)"
    and step: "\<And>t c. step (Some t, c) =
       (case TimeClip (t + msPerDay) of
          None \<Rightarrow> (None, increment c)
        | Some t' \<Rightarrow> (Some t', if P (localDay tza t') then increment c else c))"
    and valid0: "\<bar>t0\<bar> \<le> maxTime"
    and validn: "\<bar>t0 + int n * msPerDay\<bar> \<le> maxTime"
    and last: "P (localDay tza t0 + int n)"
    and count: "int (length (filter P [localDay tza t0 + 1 .. localDay tza t0 + int n])) = leadTime"
    and pos: "0 < n"
  shows "loop (Some t0, 0) = Some (Some (t0 + int n * msPerDay), leadTime)"
proof -
  let ?D = "localDay tza t0"
  have m: "0 < msPerDay" by (simp add: msPerDay_def)
  have v: "\<bar>t0 + int j * msPerDay\<bar> \<le> maxTime" if "j \<le> n" for j
  proof -
    have "0 \<le> int j * msPerDay" using m by simp
    moreover have "int j * msPerDay \<le> int n * msPerDay"
      using that m by simp
    ultimately show ?thesis using valid0 validn by linarith
  qed
  have it: "(step ^^ j) (Some t0, 0) =
     (Some (t0 + int j * msPerDay), int (length (filter P [?D + 1 .. ?D + int j])))"
    if "j \<le> n" for j
    using step valid0 v [OF that] by (rule dayStepper_iterate)
  obtain n' where n': "n = Suc n'" using pos by (cases n) auto
  have split: "[?D + 1 .. ?D + int n] = [?D + 1 .. ?D + int n'] @ [?D + int n' + 1]"
    unfolding n' by (rule upto_snoc)
  have lastP: "P (?D + int n' + 1)"
    using last by (simp add: n' algebra_simps)
  have cn': "int (length (filter P [?D + 1 .. ?D + int n'])) = leadTime - 1"
    using count lastP by (simp add: split)
  have below: "int (length (filter P [?D + 1 .. ?D + int j])) < leadTime" if "j < n" for j
  proof -
    from that have "j \<le> n'" by (simp add: n')
    then obtain i where i: "n' = j + i" using le_Suc_ex by blast
    have "[?D + 1 .. ?D + int n'] = [?D + 1 .. ?D + int j] @ [?D + int j + 1 .. ?D + int n']"
      using upto_split2 [of "?D + 1" "?D + int j" "?D + int n'"] \<open>j \<le> n'\<close>
      by (cases "j = 0") (simp_all add: upto_split1)
    then have "length (filter P [?D + 1 .. ?D + int j]) \<le> length (filter P [?D + 1 .. ?D + int n'])"
      by simp
    with cn' show ?thesis by simp
  qed
  show ?thesis
  proof -
    have "loop (Some t0, 0) = Some ((step ^^ n) (Some t0, 0))"
    proof (rule loop_iterate [where cond = "\<lambda>s. snd s < leadTime"])
      show "loop s = (if snd s < leadTime then loop (step s) else Some s)" for s
        by (rule unfold)
    next
      fix j assume "j < n"
      then show "snd ((step ^^ j) (Some t0, 0)) < leadTime"
        using it [of j] below [of j] by simp
    next
      show "\<not> snd ((step ^^ n) (Some t0, 0)) < leadTime"
        using it [of n] count by simp
    qed
    then show ?thesis using it [of n] count by simp
  qed
qed

text \<open>The holiday tables, keyed by calendar date.\<close>

lemma parsed_holidays:
  "map (\<lambda>(k, name). (parseDateKey k, name)) holidays =
     [((2025, 1, 1), Ganjitsu), ((2025, 1, 13), SeijinNoHi), ((2025, 2, 11), KenkokuKinenNoHi),
      ((2025, 2, 23), TennoTanjobi), ((2025, 2, 24), FurikaeKyujitsu), ((2025, 3, 20), ShunbunNoHi),
      ((2025, 4, 29), ShowaNoHi), ((2025, 5, 3), KenpoKinenbi), ((2025, 5, 4), MidoriNoHi),
      ((2025, 5, 5), KodomoNoHi), ((2025, 5, 6), FurikaeKyujitsu), ((2025, 7, 21), UmiNoHi),
      ((2025, 8, 11), YamaNoHi), ((2025, 9, 15), KeiroNoHi), ((2025, 9, 23), ShubunNoHi),
      ((2025, 10, 13), SportsNoHi), ((2025, 11, 3), BunkaNoHi), ((2025, 11, 23), KinroKanshaNoHi),
      ((2025, 11, 24), FurikaeKyujitsu), ((2026, 1, 1), Ganjitsu), ((2026, 1, 12), SeijinNoHi),
      ((2026, 2, 11), KenkokuKinenNoHi), ((2026, 2, 23), TennoTanjobi), ((2026, 3, 20), ShunbunNoHi),
      ((2026, 4, 29), ShowaNoHi), ((2026, 5, 3), KenpoKinenbi), ((2026, 5, 4), MidoriNoHi),
      ((2026, 5, 5), KodomoNoHi), ((2026, 5, 6), FurikaeKyujitsu), ((2026, 7, 20), UmiNoHi),
      ((2026, 8, 11), YamaNoHi), ((2026, 9, 21), KeiroNoHi), ((2026, 9, 22), KokuminNoKyujitsu),
      ((2026, 9, 23), ShubunNoHi), ((2026, 10, 12), SportsNoHi), ((2026, 11, 3), BunkaNoHi),
      ((2026, 11, 23), KinroKanshaNoHi), ((2027, 1, 1), Ganjitsu), ((2027, 1, 11), SeijinNoHi),
      ((2027, 2, 11), KenkokuKinenNoHi), ((2027, 2, 23), TennoTanjobi), ((2027, 3, 21), ShunbunNoHi),
      ((2027, 3, 22), FurikaeKyujitsu), ((2027, 4, 29), ShowaNoHi), ((2027, 5, 3), KenpoKinenbi),
      ((2027, 5, 4), MidoriNoHi), ((2027, 5, 5), KodomoNoHi), ((2027, 7, 19), UmiNoHi),
      ((2027, 8, 11), YamaNoHi), ((2027, 9, 20), KeiroNoHi), ((2027, 9, 23), ShubunNoHi),
      ((2027, 10, 11), SportsNoHi), ((2027, 11, 3), BunkaNoHi), ((2027, 11, 23), KinroKanshaNoHi),
      ((2028, 1, 1), Ganjitsu), ((2028, 1, 10), SeijinNoHi), ((2028, 2, 11), KenkokuKinenNoHi),
      ((2028, 2, 23), TennoTanjobi), ((2028, 3, 20), ShunbunNoHi), ((2028, 4, 29), ShowaNoHi),
      ((2028, 5, 3), KenpoKinenbi), ((2028, 5, 4), MidoriNoHi), ((2028, 5, 5), KodomoNoHi),
      ((2028, 7, 17), UmiNoHi), ((2028, 8, 11), YamaNoHi), ((2028, 9, 18), KeiroNoHi),
      ((2028, 9, 22), ShubunNoHi), ((2028, 10, 9), SportsNoHi), ((2028, 11, 3), BunkaNoHi),
      ((2028, 11, 23), KinroKanshaNoHi)]"
  by (simp add: holidays_def parseDateKey_def readInt_def readDigits_def digitValue_def
      digitChars_def isDigit_def)

lemma parsed_holidays_part_000:
  "map (\<lambda>(k, name). (parseDateKey k, name)) holidays_part_000 =
     [((2025, 1, 1), Ganjitsu), ((2025, 1, 13), SeijinNoHi), ((2025, 2, 11), KenkokuKinenNoHi),
      ((2025, 2, 23), TennoTanjobi), ((2025, 2, 24), FurikaeKyujitsu), ((2025, 3, 20), ShunbunNoHi),
      ((2025, 4, 29), ShowaNoHi), ((2025, 5, 3), KenpoKinenbi), ((2025, 5, 4), MidoriNoHi),
      ((2025, 5, 5), KodomoNoHi), ((2025, 5, 6), FurikaeKyujitsu), ((2025, 7, 21), UmiNoHi),
      ((2025, 8, 11), YamaNoHi), ((2025, 9, 15), KeiroNoHi), ((2025, 9, 23), ShubunNoHi),
      ((2025, 10, 13), SportsNoHi), ((2025, 11, 3), BunkaNoHi), ((2025, 11, 23), KinroKanshaNoHi),
      ((2025, 11, 24), FurikaeKyujitsu), ((2026, 1, 1), Ganjitsu), ((2026, 1, 12), SeijinNoHi),
      ((2026, 2, 11), KenkokuKinenNoHi), ((2026, 2, 23), TennoTanjobi), ((2026, 3, 20), ShunbunNoHi),
      ((2026, 4, 29), ShowaNoHi), ((2026, 5, 3), KenpoKinenbi), ((2026, 5, 4), MidoriNoHi),
      ((2026, 5, 5), KodomoNoHi), ((2026, 5, 6), FurikaeKyujitsu), ((2026, 7, 20), UmiNoHi),
      ((2026, 8, 11), YamaNoHi), ((2026, 9, 21), KeiroNoHi), ((2026, 9, 22), KokuminNoKyujitsu),
      ((2026, 9, 23), ShubunNoHi), ((2026, 10, 12), SportsNoHi), ((2026, 11, 3), BunkaNoHi),
      ((2026, 11, 23), KinroKanshaNoHi)]"
  unfolding holidays_part_000_prefix take_map [symmetric] parsed_holidays by simp

lemmas HolidayTable_list = HolidayTable_def [unfolded parsed_holidays]

lemmas HolidayTable_part_000_list = HolidayTable_part_000_def [unfolded parsed_holidays_part_000]

lemmas calendar_eval =
  calendarDateOfDay_def YearFromDay_def MonthFromDay_def DateFromDay_def WeekDayOfDay_def
  DayWithinYear_def InLeapYearOfDay_def DayFromYear_def DaysInYear_def monthStart_def Let_def

text \<open>The three loops of the sources are day steppers.\<close>

lemma businessLoop_result:
  assumes "\<bar>t0\<bar> \<le> maxTime" and "\<bar>t0 + int n * msPerDay\<bar> \<le> maxTime" and "0 < n"
    and "businessDay HolidayTable (localDay tza t0 + int n)"
    and "int (length (filter (businessDay HolidayTable)
           [localDay tza t0 + 1 .. localDay tza t0 + int n])) = leadTime"
  shows "businessLoop tza leadTime (Some t0, 0) = Some (Some (t0 + int n * msPerDay), leadTime)"
  using businessLoop.simps businessStep_Some assms(1,2,4,5,3)
  by (rule dayStepper_loop [where loop = "businessLoop tza leadTime" and step = "businessStep tza"])

lemma holidayAwareLoop_result:
  assumes "\<bar>t0\<bar> \<le> maxTime" and "\<bar>t0 + int n * msPerDay\<bar> \<le> maxTime" and "0 < n"
    and "holidayAwareDay HolidayTable (localDay tza t0 + int n)"
    and "int (length (filter (holidayAwareDay HolidayTable)
           [localDay tza t0 + 1 .. localDay tza t0 + int n])) = leadTime"
  shows "holidayAwareLoop tza leadTime (Some t0, 0)
     = Some (Some (t0 + int n * msPerDay), leadTime)"
  using holidayAwareLoop.simps holidayAwareStep_Some assms(1,2,4,5,3)
  by (rule dayStepper_loop
      [where loop = "holidayAwareLoop tza leadTime" and step = "holidayAwareStep tza"])

lemma businessLoop_part_000_result:
  assumes "\<bar>t0\<bar> \<le> maxTime" and "\<bar>t0 + int n * msPerDay\<bar> \<le> maxTime" and "0 < n"
    and "businessDay HolidayTable_part_000 (localDay tza t0 + int n)"
    and "int (length (filter (businessDay HolidayTable_part_000)
           [localDay tza t0 + 1 .. localDay tza t0 + int n])) = leadTime"
  shows "businessLoop_part_000 tza leadTime (Some t0, 0)
     = Some (Some (t0 + int n * msPerDay), leadTime)"
  using businessLoop_part_000.simps businessStep_part_000_Some assms(1,2,4,5,3)
  by (rule dayStepper_loop
      [where loop = "businessLoop_part_000 tza leadTime" and step = "businessStep_part_000 tza"])

text \<open>Calendar mode is one \<open>setDate\<close> call.\<close>

lemma calendarDate_Some: "calendarDate tza (Some t0) leadTime = TimeClip (t0 + leadTime * msPerDay)"
  by (simp add: calendarDate_def setDate_getDate_plus)

text \<open>
  The order dates of the examples: \<open>new Date(y, m - 1, d)\<close> is local midnight of the
  day, for every time zone adjustment of at most a day.
\<close>

lemma Date_new_day:
  assumes "\<bar>tza\<bar> \<le> msPerDay" and "99 < y" and "\<bar>MakeDay y m d\<bar> \<le> 99999999"
  shows "Date_new tza y m d = Some (MakeDay y m d * msPerDay - tza)"
    and "localDay tza (MakeDay y m d * msPerDay - tza) = MakeDay y m d"
    and "\<bar>MakeDay y m d * msPerDay - tza\<bar> \<le> maxTime"
proof -
  have "\<bar>MakeDay y m d * msPerDay\<bar> \<le> 99999999 * msPerDay"
    using assms(3) by (simp add: msPerDay_def abs_mult)
  then show r: "\<bar>MakeDay y m d * msPerDay - tza\<bar> \<le> maxTime"
    using assms(1) by (simp add: msPerDay_def maxTime_def)
  then show "Date_new tza y m d = Some (MakeDay y m d * msPerDay - tza)"
    using assms(2) by (simp add: Date_new_def Let_def TimeClip_def MakeDate_def UTC_def)
  show "localDay tza (MakeDay y m d * msPerDay - tza) = MakeDay y m d"
    by (simp add: localDay_def LocalTime_def Day_def msPerDay_def)
qed

lemma MakeDay_examples:
  "MakeDay 2025 0 1 = 20089" "MakeDay 2025 0 6 = 20094" "MakeDay 2025 0 8 = 20096"
  "MakeDay 2025 0 10 = 20098" "MakeDay 2025 0 14 = 20102" "MakeDay 2025 0 13 = 20101"
  "MakeDay 2025 0 16 = 20104"
  by (simp_all add: MakeDay_def DayFromYear_def DaysInYear_def monthStart_def)

lemma example_dates:
  assumes "\<bar>tza\<bar> \<le> msPerDay"
  shows "Date_new tza 2025 0 1 = Some (20089 * msPerDay - tza)"
    and "Date_new tza 2025 0 6 = Some (20094 * msPerDay - tza)"
    and "Date_new tza 2025 0 8 = Some (20096 * msPerDay - tza)"
    and "Date_new tza 2025 0 10 = Some (20098 * msPerDay - tza)"
    and "Date_new tza 2025 0 13 = Some (20101 * msPerDay - tza)"
    and "Date_new tza 2025 0 14 = Some (20102 * msPerDay - tza)"
    and "Date_new tza 2025 0 16 = Some (20104 * msPerDay - tza)"
  using assms Date_new_day(1) [of tza 2025 0 1] Date_new_day(1) [of tza 2025 0 6]
    Date_new_day(1) [of tza 2025 0 8] Date_new_day(1) [of tza 2025 0 10]
    Date_new_day(1) [of tza 2025 0 13] Date_new_day(1) [of tza 2025 0 14]
    Date_new_day(1) [of tza 2025 0 16]
  by (simp_all add: MakeDay_examples)

lemma local_midnight:
  assumes "\<bar>tza\<bar> \<le> msPerDay" and "\<bar>D\<bar> \<le> 99999999"
  shows "localDay tza (D * msPerDay - tza) = D" and "\<bar>D * msPerDay - tza\<bar> \<le> maxTime"
proof -
  show "localDay tza (D * msPerDay - tza) = D"
    by (simp add: localDay_def LocalTime_def Day_def msPerDay_def)
  have "\<bar>D * msPerDay\<bar> \<le> 99999999 * msPerDay"
    using assms(2) by (simp add: msPerDay_def abs_mult)
  then show "\<bar>D * msPerDay - tza\<bar> \<le> maxTime"
    using assms(1) by (simp add: msPerDay_def maxTime_def)
qed

text \<open>Order date 2025-01-01, lead time 5.\<close>

lemma example_business_2025_01_01:
  assumes "\<bar>tza\<bar> \<le> msPerDay"
  shows "businessLoop tza 5 (Date_new tza 2025 0 1, 0) = Some (Date_new tza 2025 0 8, 5)"
proof -
  let ?t0 = "20089 * msPerDay - tza"
  have d: "localDay tza ?t0 = 20089" and v0: "\<bar>?t0\<bar> \<le> maxTime"
    using local_midnight [OF assms, of 20089] by simp_all
  have vn: "\<bar>?t0 + int 7 * msPerDay\<bar> \<le> maxTime"
    using local_midnight(2) [OF assms, of 20096] by (simp add: algebra_simps)
  have "businessLoop tza 5 (Some ?t0, 0) = Some (Some (?t0 + int 7 * msPerDay), 5)"
    using v0 vn
    by (rule businessLoop_result)
      (simp_all add: d businessDay_def HolidayTable_list calendar_eval)
  then show ?thesis
    by (simp add: example_dates [OF assms] algebra_simps)
qed


lemma example_holidayAware_2025_01_01:
  assumes "\<bar>tza\<bar> \<le> msPerDay"
  shows "holidayAwareLoop tza 5 (Date_new tza 2025 0 1, 0) = Some (Date_new tza 2025 0 6, 5)"
proof -
  let ?t0 = "20089 * msPerDay - tza"
  have d: "localDay tza ?t0 = 20089" and v0: "\<bar>?t0\<bar> \<le> maxTime"
    using local_midnight [OF assms, of 20089] by simp_all
  have vn: "\<bar>?t0 + int 5 * msPerDay\<bar> \<le> maxTime"
    using local_midnight(2) [OF assms, of 20094] by (simp add: algebra_simps)
  have "holidayAwareLoop tza 5 (Some ?t0, 0) = Some (Some (?t0 + int 5 * msPerDay), 5)"
    using v0 vn
    by (rule holidayAwareLoop_result)
      (simp_all add: d holidayAwareDay_def HolidayTable_list calendar_eval)
  then show ?thesis
    by (simp add: example_dates [OF assms] algebra_simps)
qed

lemma example_calendar_2025_01_01:
  assumes "\<bar>tza\<bar> \<le> msPerDay"
  shows "calendarDate tza (Date_new tza 2025 0 1) 5 = Date_new tza 2025 0 6"
  using local_midnight(2) [OF assms, of 20094]
  by (simp add: example_dates [OF assms] calendarDate_Some TimeClip_def algebra_simps)




text \<open>What \<open>formatResult\<close> prints for local midnight of a day.\<close>

lemma formatResult_local_midnight:
  assumes "\<bar>tza\<bar> \<le> msPerDay" and "\<bar>D\<bar> \<le> 99999999"
  shows "formatResult tza (Some (D * msPerDay - tza)) =
     \<lparr> monthShown = Some (MonthFromDay D + 1), dateShown = Some (DateFromDay D),
       dayNameShown = Some (dayNames ! nat (WeekDayOfDay D)) \<rparr>"
  using local_midnight(1) [OF assms]
  by (simp add: formatResult_def getters_Some plusNumber_def WeekDayOfDay_def dayNames_def)

lemma calculateDelivery_2025_01_01:
  assumes "\<bar>tza\<bar> \<le> msPerDay"
  shows "calculateDelivery tza (Some (2025, 1, 1)) (Some 5) = Some (Inr
     \<lparr> calcResultBusiness = \<lparr> monthShown = Some 1, dateShown = Some 8, dayNameShown = Some Sui \<rparr>,
       calcResultHolidayAware =
         \<lparr> monthShown = Some 1, dateShown = Some 6, dayNameShown = Some Getsu \<rparr>,
       calcResultCalendar =
         \<lparr> monthShown = Some 1, dateShown = Some 6, dayNameShown = Some Getsu \<rparr> \<rparr>)"
proof -
  have f8: "formatResult tza (Date_new tza 2025 0 8)
      = \<lparr> monthShown = Some 1, dateShown = Some 8, dayNameShown = Some Sui \<rparr>"
    using formatResult_local_midnight [OF assms, of 20096]
    by (simp add: example_dates [OF assms] calendar_eval dayNames_def)
  have f6: "formatResult tza (Date_new tza 2025 0 6)
      = \<lparr> monthShown = Some 1, dateShown = Some 6, dayNameShown = Some Getsu \<rparr>"
    using formatResult_local_midnight [OF assms, of 20094]
    by (simp add: example_dates [OF assms] calendar_eval dayNames_def)
  show ?thesis
    by (simp add: calculateDelivery_def Let_def example_business_2025_01_01 [OF assms]
        example_holidayAware_2025_01_01 [OF assms] example_calendar_2025_01_01 [OF assms] f8 f6)
qed


text \<open>
  The copy in part_000 reads the order date as midnight UTC. East of Greenwich (and in
  UTC) that instant lies on the same local day.
\<close>

lemma Date_parse_day:
  assumes "\<bar>MakeDay y (m - 1) d\<bar> \<le> 99999999"
  shows "Date_parse (y, m, d) = Some (MakeDay y (m - 1) d * msPerDay)"
proof -
  have "\<bar>MakeDay y (m - 1) d * msPerDay\<bar> \<le> 99999999 * msPerDay"
    using assms by (simp add: msPerDay_def abs_mult)
  then show ?thesis
    by (simp add: Date_parse_def TimeClip_def MakeDate_def msPerDay_def maxTime_def)
qed

lemma utc_midnight:
  assumes "\<bar>D\<bar> \<le> 99999999"
  shows "0 \<le> tza \<Longrightarrow> tza < msPerDay \<Longrightarrow> localDay tza (D * msPerDay) = D"
    and "- msPerDay \<le> tza \<Longrightarrow> tza < 0 \<Longrightarrow> localDay tza (D * msPerDay) = D - 1"
    and "\<bar>D * msPerDay\<bar> \<le> maxTime"
proof -
  show "localDay tza (D * msPerDay) = D" if "0 \<le> tza" "tza < msPerDay"
  proof -
    have "(D * msPerDay + tza) div msPerDay = D + tza div msPerDay"
      by (simp add: msPerDay_def)
    with that show ?thesis
      by (simp add: localDay_def LocalTime_def Day_def div_pos_pos_trivial)
  qed
  show "localDay tza (D * msPerDay) = D - 1" if "- msPerDay \<le> tza" "tza < 0"
  proof -
    have "(D * msPerDay + tza) div msPerDay = D + tza div msPerDay"
      by (simp add: msPerDay_def)
    moreover have "tza div msPerDay = - 1"
      using that by (intro int_div_pos_eq [where r = "tza + msPerDay"]) (simp_all add: msPerDay_def)
    ultimately show ?thesis
      by (simp add: localDay_def LocalTime_def Day_def)
  qed
  have "\<bar>D * msPerDay\<bar> \<le> 99999999 * msPerDay"
    using assms by (simp add: msPerDay_def abs_mult)
  then show "\<bar>D * msPerDay\<bar> \<le> maxTime"
    by (simp add: msPerDay_def maxTime_def)
qed

lemma example_part_000_dates:
  "Date_parse (2025, 1, 1) = Some (20089 * msPerDay)"
  "Date_parse (2025, 1, 5) = Some (20093 * msPerDay)"
  "Date_parse (2025, 1, 6) = Some (20094 * msPerDay)"
  "Date_parse (2025, 1, 7) = Some (20095 * msPerDay)"
  "Date_parse (2025, 1, 8) = Some (20096 * msPerDay)"
  by (simp_all add: Date_parse_def TimeClip_def MakeDate_def msPerDay_def maxTime_def
      MakeDay_def DayFromYear_def DaysInYear_def monthStart_def)

lemma example_part_000_business:
  assumes "0 \<le> tza" and "tza < msPerDay"
  shows "businessLoop_part_000 tza 5 (Date_parse (2025, 1, 1), 0) = Some (Date_parse (2025, 1, 8), 5)"
proof -
  let ?t0 = "20089 * msPerDay"
  have d: "localDay tza ?t0 = 20089" and v0: "\<bar>?t0\<bar> \<le> maxTime"
    using utc_midnight(1) [of 20089 tza] utc_midnight(3) [of 20089] assms by simp_all
  have vn: "\<bar>?t0 + int 7 * msPerDay\<bar> \<le> maxTime"
    using utc_midnight(3) [of 20096] by (simp add: algebra_simps)
  have "businessLoop_part_000 tza 5 (Some ?t0, 0) = Some (Some (?t0 + int 7 * msPerDay), 5)"
    using v0 vn
    by (rule businessLoop_part_000_result)
      (simp_all add: d businessDay_def HolidayTable_part_000_list calendar_eval)
  then show ?thesis
    by (simp add: example_part_000_dates algebra_simps)
qed

lemma example_part_000_calendar:
  "calendarDate tza (Date_parse (2025, 1, 1)) 5 = Date_parse (2025, 1, 6)"
  using utc_midnight(3) [of 20094]
  by (simp add: example_part_000_dates calendarDate_Some TimeClip_def algebra_simps)

lemma formatResult_utc_midnight:
  assumes "0 \<le> tza" and "tza < msPerDay" and "\<bar>D\<bar> \<le> 99999999"
  shows "formatResult tza (Some (D * msPerDay)) =
     \<lparr> monthShown = Some (MonthFromDay D + 1), dateShown = Some (DateFromDay D),
       dayNameShown = Some (dayNames ! nat (WeekDayOfDay D)) \<rparr>"
  using utc_midnight(1) [OF assms(3,1,2)]
  by (simp add: formatResult_def getters_Some plusNumber_def WeekDayOfDay_def dayNames_def)

lemma calculateDelivery_part_000_2025_01_01:
  assumes "0 \<le> tza" and "tza < msPerDay"
  shows "calculateDelivery_part_000 tza (Some (2025, 1, 1)) (Some 5) ''business''
      = Some (Inr \<lparr> monthShown = Some 1, dateShown = Some 8, dayNameShown = Some Sui \<rparr>)"
    and "calculateDelivery_part_000 tza (Some (2025, 1, 1)) (Some 5) ''calendar''
      = Some (Inr \<lparr> monthShown = Some 1, dateShown = Some 6, dayNameShown = Some Getsu \<rparr>)"
proof -
  have f8: "formatResult tza (Date_parse (2025, 1, 8))
      = \<lparr> monthShown = Some 1, dateShown = Some 8, dayNameShown = Some Sui \<rparr>"
    using formatResult_utc_midnight [OF assms, of 20096]
    by (simp add: example_part_000_dates calendar_eval dayNames_def)
  have f6: "formatResult tza (Date_parse (2025, 1, 6))
      = \<lparr> monthShown = Some 1, dateShown = Some 6, dayNameShown = Some Getsu \<rparr>"
    using formatResult_utc_midnight [OF assms, of 20094]
    by (simp add: example_part_000_dates calendar_eval dayNames_def)
  show "calculateDelivery_part_000 tza (Some (2025, 1, 1)) (Some 5) ''business''
      = Some (Inr \<lparr> monthShown = Some 1, dateShown = Some 8, dayNameShown = Some Sui \<rparr>)"
    by (simp add: calculateDelivery_part_000_def Let_def example_part_000_business [OF assms] f8)
  show "calculateDelivery_part_000 tza (Some (2025, 1, 1)) (Some 5) ''calendar''
      = Some (Inr \<lparr> monthShown = Some 1, dateShown = Some 6, dayNameShown = Some Getsu \<rparr>)"
    by (simp add: calculateDelivery_part_000_def Let_def example_part_000_calendar f6)
qed

text \<open>
  West of Greenwich the same instant lies on the previous local day, so this copy
  starts from the day before the order date: in calendar mode, five days after the
  order date 2025-01-01 it shows 1/5, a Sunday. The copy in app.js builds the order
  date from its parts for this reason (comment at line 1678).
\<close>

lemma calculateDelivery_part_000_west:
  "calculateDelivery_part_000 (- 18000000) (Some (2025, 1, 1)) (Some 5) ''calendar''
     = Some (Inr \<lparr> monthShown = Some 1, dateShown = Some 5, dayNameShown = Some Nichi \<rparr>)"
proof -
  have ld: "localDay (- 18000000) (20094 * msPerDay) = 20093"
    using utc_midnight(2) [of 20094 "- 18000000"] by (simp add: msPerDay_def)
  have "formatResult (- 18000000) (Some (20094 * msPerDay))
      = \<lparr> monthShown = Some 1, dateShown = Some 5, dayNameShown = Some Nichi \<rparr>"
    by (simp add: formatResult_def getters_Some plusNumber_def ld calendar_eval dayNames_def)
  moreover have "calendarDate (- 18000000) (Date_parse (2025, 1, 1)) 5 = Some (20094 * msPerDay)"
    using example_part_000_calendar [of "- 18000000"] by (simp only: example_part_000_dates)
  ultimately show ?thesis
    by (simp add: calculateDelivery_part_000_def Let_def)
qed

text \<open>
  Termination. A pass either counts the day or moves a valid date one day closer to
  the end of the range of \<open>Date\<close>; beyond that range every pass counts. While the
  counter is below \<open>2 ^ 53\<close> counting is exact, so a lead time of at most \<open>2 ^ 53\<close> is
  reached.
\<close>

lemma dayStepper_pass:
  fixes step :: "date \<times> int \<Rightarrow> date \<times> int" and P :: "int \<Rightarrow> bool"
  assumes step_Some: "\<And>t c. step (Some t, c) =
       (case TimeClip (t + msPerDay) of
          None \<Rightarrow> (None, increment c)
        | Some t' \<Rightarrow> (Some t', if P (localDay tza t') then increment c else c))"
    and step_None: "\<And>c. step (None, c) = (None, increment c)"
  shows "snd (step s) =
     (if (case fst (step s) of None \<Rightarrow> False | Some t' \<Rightarrow> \<not> P (localDay tza t'))
      then snd s else increment (snd s))"
proof (cases s)
  case (Pair d c)
  show ?thesis
  proof (cases d)
    case None
    then show ?thesis by (simp add: Pair step_None)
  next
    case (Some t)
    then show ?thesis by (simp add: Pair step_Some split: option.split)
  qed
qed

lemma dayStepper_measure:
  fixes step :: "date \<times> int \<Rightarrow> date \<times> int" and P :: "int \<Rightarrow> bool"
  assumes step_Some: "\<And>t c. step (Some t, c) =
       (case TimeClip (t + msPerDay) of
          None \<Rightarrow> (None, increment c)
        | Some t' \<Rightarrow> (Some t', if P (localDay tza t') then increment c else c))"
    and step_None: "\<And>c. step (None, c) = (None, increment c)"
    and bound: "leadTime \<le> 2 ^ 53"
    and running: "snd s < leadTime"
  shows "nat (leadTime - snd (step s))
       + (case fst (step s) of None \<Rightarrow> 0 | Some t \<Rightarrow> nat ((maxTime - t) div msPerDay + 1))
     < nat (leadTime - snd s)
       + (case fst s of None \<Rightarrow> 0 | Some t \<Rightarrow> nat ((maxTime - t) div msPerDay + 1))"
proof (cases s)
  case (Pair d c)
  with running bound have c: "c < leadTime" and inc: "increment c = c + 1"
    by (simp_all add: increment_def)
  show ?thesis
  proof (cases d)
    case None
    then show ?thesis using c by (simp add: Pair step_None inc)
  next
    case (Some t)
    show ?thesis
    proof (cases "TimeClip (t + msPerDay)")
      case None
      then show ?thesis using c by (simp add: Pair Some step_Some inc)
    next
      case (Some t')
      then have t': "t' = t + msPerDay" and v: "t + msPerDay \<le> maxTime"
        by (auto simp: TimeClip_Some)
      define q where "q = (maxTime - t') div msPerDay"
      have "0 \<le> maxTime - t'" using v t' by simp
      then have q0: "0 \<le> q"
        unfolding q_def by (simp add: msPerDay_def pos_imp_zdiv_nonneg_iff)
      have "maxTime - t = (maxTime - t') + msPerDay" using t' by simp
      then have q1: "(maxTime - t) div msPerDay = q + 1"
        unfolding q_def by (simp add: msPerDay_def)
      have "snd (step s) = c \<or> snd (step s) = c + 1"
        by (simp add: Pair \<open>d = Some t\<close> step_Some Some inc)
      then have "nat (leadTime - snd (step s)) \<le> nat (leadTime - c)" by auto
      moreover have "fst (step s) = Some t'"
        by (simp add: Pair \<open>d = Some t\<close> step_Some Some)
      ultimately show ?thesis
        using q0 by (simp add: Pair \<open>d = Some t\<close> q1 q_def [symmetric])
    qed
  qed
qed

lemma dayStepper_exit:
  fixes step :: "date \<times> int \<Rightarrow> date \<times> int" and P :: "int \<Rightarrow> bool"
  assumes step_Some: "\<And>t c. step (Some t, c) =
       (case TimeClip (t + msPerDay) of
          None \<Rightarrow> (None, increment c)
        | Some t' \<Rightarrow> (Some t', if P (localDay tza t') then increment c else c))"
    and step_None: "\<And>c. step (None, c) = (None, increment c)"
    and bound: "leadTime \<le> 2 ^ 53"
  shows "\<exists>k. (\<forall>j<k. snd ((step ^^ j) s) < leadTime) \<and> \<not> snd ((step ^^ k) s) < leadTime"
proof (induction "nat (leadTime - snd s)
       + (case fst s of None \<Rightarrow> 0 | Some t \<Rightarrow> nat ((maxTime - t) div msPerDay + 1))"
    arbitrary: s rule: less_induct)
  case less
  show ?case
  proof (cases "snd s < leadTime")
    case False
    then have "(\<forall>j<0. snd ((step ^^ j) s) < leadTime) \<and> \<not> snd ((step ^^ 0) s) < leadTime"
      by simp
    then show ?thesis by blast
  next
    case True
    have "nat (leadTime - snd (step s))
       + (case fst (step s) of None \<Rightarrow> 0 | Some t \<Rightarrow> nat ((maxTime - t) div msPerDay + 1))
     < nat (leadTime - snd s)
       + (case fst s of None \<Rightarrow> 0 | Some t \<Rightarrow> nat ((maxTime - t) div msPerDay + 1))"
      using step_Some step_None bound True by (rule dayStepper_measure)
    then obtain k where k: "\<forall>j<k. snd ((step ^^ j) (step s)) < leadTime"
        "\<not> snd ((step ^^ k) (step s)) < leadTime"
      using less.hyps [of "step s"] by blast
    have "\<forall>j<Suc k. snd ((step ^^ j) s) < leadTime"
    proof (intro allI impI)
      fix j assume "j < Suc k"
      show "snd ((step ^^ j) s) < leadTime"
      proof (cases j)
        case 0
        then show ?thesis using True by simp
      next
        case (Suc i)
        with \<open>j < Suc k\<close> k(1) show ?thesis by (simp add: funpow_swap1)
      qed
    qed
    moreover have "\<not> snd ((step ^^ Suc k) s) < leadTime"
      using k(2) by (simp add: funpow_swap1)
    ultimately show ?thesis by blast
  qed
qed

text \<open>While the loop runs, the counter is the number of passes that were not skipped.\<close>

lemma dayStepper_counter:
  fixes step :: "date \<times> int \<Rightarrow> date \<times> int" and P :: "int \<Rightarrow> bool"
  assumes step_Some: "\<And>t c. step (Some t, c) =
       (case TimeClip (t + msPerDay) of
          None \<Rightarrow> (None, increment c)
        | Some t' \<Rightarrow> (Some t', if P (localDay tza t') then increment c else c))"
    and step_None: "\<And>c. step (None, c) = (None, increment c)"
    and bound: "leadTime \<le> 2 ^ 53"
    and running: "\<And>j. j < k \<Longrightarrow> snd ((step ^^ j) s) < leadTime"
  shows "snd ((step ^^ k) s) + int (length (filter
        (\<lambda>j. case fst ((step ^^ Suc j) s) of None \<Rightarrow> False | Some t' \<Rightarrow> \<not> P (localDay tza t'))
        [0..<k])) = snd s + int k"
  using running
proof (induction k)
  case 0
  then show ?case by simp
next
  case (Suc k)
  let ?skip = "\<lambda>j. case fst ((step ^^ Suc j) s) of None \<Rightarrow> False | Some t' \<Rightarrow> \<not> P (localDay tza t')"
  have IH: "snd ((step ^^ k) s) + int (length (filter ?skip [0..<k])) = snd s + int k"
    using Suc by simp
  have "snd ((step ^^ k) s) < leadTime" using Suc.prems [of k] by simp
  with bound have inc: "increment (snd ((step ^^ k) s)) = snd ((step ^^ k) s) + 1"
    by (simp add: increment_def)
  have "snd ((step ^^ Suc k) s) = (if ?skip k then snd ((step ^^ k) s) else snd ((step ^^ k) s) + 1)"
    using dayStepper_pass [of step P tza "(step ^^ k) s", OF step_Some step_None]
    by (simp add: inc)
  then show ?case using IH by simp
qed

lemma dayStepper_total:
  fixes step :: "date \<times> int \<Rightarrow> date \<times> int" and P :: "int \<Rightarrow> bool"
  assumes unfold: "\<And>s. loop s = (if snd s < leadTime then loop (step s) else Some s)"
    and step_Some: "\<And>t c. step (Some t, c) =
       (case TimeClip (t + msPerDay) of
          None \<Rightarrow> (None, increment c)
        | Some t' \<Rightarrow> (Some t', if P (localDay tza t') then increment c else c))"
    and step_None: "\<And>c. step (None, c) = (None, increment c)"
    and pos: "1 \<le> leadTime" and bound: "leadTime \<le> 2 ^ 53"
  shows "\<exists>k. loop (orderDate, 0) = Some ((step ^^ k) (orderDate, 0))
     \<and> snd ((step ^^ k) (orderDate, 0)) = leadTime
     \<and> int k = leadTime + int (length (filter
          (\<lambda>j. case fst ((step ^^ Suc j) (orderDate, 0)) of
                 None \<Rightarrow> False
               | Some t' \<Rightarrow> \<not> P (localDay tza t'))
          [0..<k]))"
proof -
  let ?s = "(orderDate, 0 :: int)"
  let ?skip = "\<lambda>j. case fst ((step ^^ Suc j) ?s) of None \<Rightarrow> False | Some t' \<Rightarrow> \<not> P (localDay tza t')"
  obtain k where k: "\<forall>j<k. snd ((step ^^ j) ?s) < leadTime" "\<not> snd ((step ^^ k) ?s) < leadTime"
    using dayStepper_exit [of step P tza leadTime ?s, OF step_Some step_None bound] by blast
  have res: "loop ?s = Some ((step ^^ k) ?s)"
    using unfold k by (intro loop_iterate [where cond = "\<lambda>s. snd s < leadTime"]) auto
  have cnt: "snd ((step ^^ j) ?s) + int (length (filter ?skip [0..<j])) = int j" if "j \<le> k" for j
    using dayStepper_counter [of step P tza leadTime j ?s, OF step_Some step_None bound] k(1) that
    by simp
  have "k \<noteq> 0" using k(2) pos by (cases k) auto
  then obtain k' where k': "k = Suc k'" by (cases k) auto
  have "snd ((step ^^ k') ?s) < leadTime" using k(1) k' by simp
  moreover have "snd ((step ^^ k) ?s) \<le> snd ((step ^^ k') ?s) + 1"
    using cnt [of k] cnt [of k'] by (simp add: k')
  ultimately have fin: "snd ((step ^^ k) ?s) = leadTime" using k(2) by simp
  with cnt [of k] have "int k = leadTime + int (length (filter ?skip [0..<k]))" by simp
  with res fin show ?thesis by blast
qed

text \<open>
  Divergence. The counter never passes \<open>2 ^ 53\<close>, so the business-day loop does not
  return for a larger lead time.
\<close>

lemma increment_le: "c \<le> 2 ^ 53 \<Longrightarrow> increment c \<le> 2 ^ 53"
  by (simp add: increment_def)

lemma businessStep_counter_le: "snd s \<le> 2 ^ 53 \<Longrightarrow> snd (businessStep tza s) \<le> 2 ^ 53"
  using increment_le [of "snd s"] by (simp add: businessStep_def Let_def)

lemma businessLoop_diverges:
  assumes "2 ^ 53 < leadTime" and "snd s \<le> 2 ^ 53"
  shows "businessLoop tza leadTime s = None"
proof (rule ccontr)
  assume "businessLoop tza leadTime s \<noteq> None"
  then obtain r where r: "businessLoop tza leadTime s = Some r" by auto
  have "\<not> (2 ^ 53 < leadTime \<and> snd s \<le> 2 ^ 53)"
  proof (rule businessLoop.raw_induct
      [where P = "\<lambda>tza leadTime s r. \<not> (2 ^ 53 < leadTime \<and> snd s \<le> 2 ^ 53)"])
    show "businessLoop tza leadTime s = Some r" by (rule r)
  next
    fix loop :: "int \<Rightarrow> int \<Rightarrow> date \<times> int \<Rightarrow> (date \<times> int) option"
    fix tza leadTime :: int and s r :: "date \<times> int"
    assume IH: "\<And>tza leadTime s r. loop tza leadTime s = Some r
        \<Longrightarrow> \<not> (2 ^ 53 < leadTime \<and> snd s \<le> 2 ^ 53)"
      and eq: "(if snd s < leadTime then loop tza leadTime (businessStep tza s) else Some s)
        = Some r"
    show "\<not> (2 ^ 53 < leadTime \<and> snd s \<le> 2 ^ 53)"
    proof
      assume h: "2 ^ 53 < leadTime \<and> snd s \<le> 2 ^ 53"
      then have "loop tza leadTime (businessStep tza s) = Some r"
        using eq by simp
      then have "\<not> (2 ^ 53 < leadTime \<and> snd (businessStep tza s) \<le> 2 ^ 53)"
        by (rule IH)
      with h businessStep_counter_le [of s tza] show False by simp
    qed
  qed
  with assms show False by simp
qed

section \<open>The delivery calculator against its specification\<close>





text \<open>
  C3, for every lead time, fails: a \<open>Date\<close> holds at most 8.64e15 milliseconds, and
  the order date 2025-01-01 plus 100000000 calendar days lies beyond that, so the
  result is an invalid \<open>Date\<close> and the page shows \<open>NaN/NaN\<close>.
\<close>

theorem C3_calendar_mode_counterexample:
  "calendarDate 32400000 (Date_new 32400000 2025 0 1) 100000000 = None
   \<and> calculateDelivery_part_000 32400000 (Some (2025, 1, 1)) (Some 100000000) ''calendar''
       = Some (Inr \<lparr> monthShown = None, dateShown = None, dayNameShown = None \<rparr>)"
  by (simp add: calendarDate_Some example_dates example_part_000_dates TimeClip_def
      msPerDay_def maxTime_def calculateDelivery_part_000_def Let_def formatResult_def
      getters_None plusNumber_def)

text \<open>
  C3, amended. Calendar mode is one \<open>setDate\<close> call: for every order date and every lead
  time the result is the order date plus exactly \<open>leadTime\<close> calendar days, weekends and
  holidays included, whenever that day lies in the range of \<open>Date\<close>, and an invalid
  \<open>Date\<close> otherwise. Order date 2025-01-01 with lead time 5 gives 2025-01-06.
\<close>

theorem C3_calendar_mode:
  "calendarDate tza (Some orderTime) leadTime = TimeClip (orderTime + leadTime * msPerDay)
   \<and> (\<bar>orderTime + leadTime * msPerDay\<bar> \<le> maxTime
      \<longrightarrow> calendarDate tza (Some orderTime) leadTime = Some (orderTime + leadTime * msPerDay)
          \<and> localDay tza (orderTime + leadTime * msPerDay) = localDay tza orderTime + leadTime
          \<and> getFullYear tza (calendarDate tza (Some orderTime) leadTime)
              = Some (YearFromDay (localDay tza orderTime + leadTime))
          \<and> getMonth tza (calendarDate tza (Some orderTime) leadTime)
              = Some (MonthFromDay (localDay tza orderTime + leadTime))
          \<and> getDate tza (calendarDate tza (Some orderTime) leadTime)
              = Some (DateFromDay (localDay tza orderTime + leadTime)))
   \<and> (maxTime < \<bar>orderTime + leadTime * msPerDay\<bar>
      \<longrightarrow> calendarDate tza (Some orderTime) leadTime = None)
   \<and> (\<bar>tza\<bar> \<le> msPerDay
      \<longrightarrow> calendarDate tza (Date_new tza 2025 0 1) 5 = Date_new tza 2025 0 6
          \<and> getFullYear tza (Date_new tza 2025 0 6) = Some 2025
          \<and> getMonth tza (Date_new tza 2025 0 6) = Some 0
          \<and> getDate tza (Date_new tza 2025 0 6) = Some 6
          \<and> getDay tza (Date_new tza 2025 0 1) = Some 3
          \<and> (\<exists>r. calculateDelivery tza (Some (2025, 1, 1)) (Some 5) = Some (Inr r)
                \<and> calcResultCalendar r
                  = \<lparr> monthShown = Some 1, dateShown = Some 6, dayNameShown = Some Getsu \<rparr>))
   \<and> (0 \<le> tza \<and> tza < msPerDay
      \<longrightarrow> calculateDelivery_part_000 tza (Some (2025, 1, 1)) (Some 5) ''calendar''
            = Some (Inr \<lparr> monthShown = Some 1, dateShown = Some 6, dayNameShown = Some Getsu \<rparr>))"
proof -
  have in_range: "calendarDate tza (Some orderTime) leadTime = Some (orderTime + leadTime * msPerDay)
          \<and> localDay tza (orderTime + leadTime * msPerDay) = localDay tza orderTime + leadTime
          \<and> getFullYear tza (calendarDate tza (Some orderTime) leadTime)
              = Some (YearFromDay (localDay tza orderTime + leadTime))
          \<and> getMonth tza (calendarDate tza (Some orderTime) leadTime)
              = Some (MonthFromDay (localDay tza orderTime + leadTime))
          \<and> getDate tza (calendarDate tza (Some orderTime) leadTime)
              = Some (DateFromDay (localDay tza orderTime + leadTime))"
    if "\<bar>orderTime + leadTime * msPerDay\<bar> \<le> maxTime"
    using that localDay_shift [of tza orderTime leadTime]
    by (simp add: calendarDate_Some TimeClip_def getters_Some)
  have out_of_range: "calendarDate tza (Some orderTime) leadTime = None"
    if "maxTime < \<bar>orderTime + leadTime * msPerDay\<bar>"
    using that by (simp add: calendarDate_Some TimeClip_def)
  have example: "calendarDate tza (Date_new tza 2025 0 1) 5 = Date_new tza 2025 0 6
          \<and> getFullYear tza (Date_new tza 2025 0 6) = Some 2025
          \<and> getMonth tza (Date_new tza 2025 0 6) = Some 0
          \<and> getDate tza (Date_new tza 2025 0 6) = Some 6
          \<and> getDay tza (Date_new tza 2025 0 1) = Some 3
          \<and> (\<exists>r. calculateDelivery tza (Some (2025, 1, 1)) (Some 5) = Some (Inr r)
                \<and> calcResultCalendar r
                  = \<lparr> monthShown = Some 1, dateShown = Some 6, dayNameShown = Some Getsu \<rparr>)"
    if z: "\<bar>tza\<bar> \<le> msPerDay"
  proof -
    have "localDay tza (20094 * msPerDay - tza) = 20094"
      and "localDay tza (20089 * msPerDay - tza) = 20089"
      using local_midnight(1) [OF z, of 20094] local_midnight(1) [OF z, of 20089] by simp_all
    then have "getFullYear tza (Date_new tza 2025 0 6) = Some 2025
        \<and> getMonth tza (Date_new tza 2025 0 6) = Some 0
        \<and> getDate tza (Date_new tza 2025 0 6) = Some 6
        \<and> getDay tza (Date_new tza 2025 0 1) = Some 3"
      by (simp add: example_dates [OF z] getters_Some calendar_eval)
    then show ?thesis
      using example_calendar_2025_01_01 [OF z] calculateDelivery_2025_01_01 [OF z] by simp
  qed
  note c1 = calendarDate_Some [of tza orderTime leadTime]
  from in_range have c2: "\<bar>orderTime + leadTime * msPerDay\<bar> \<le> maxTime
      \<longrightarrow> calendarDate tza (Some orderTime) leadTime = Some (orderTime + leadTime * msPerDay)
          \<and> localDay tza (orderTime + leadTime * msPerDay) = localDay tza orderTime + leadTime
          \<and> getFullYear tza (calendarDate tza (Some orderTime) leadTime)
              = Some (YearFromDay (localDay tza orderTime + leadTime))
          \<and> getMonth tza (calendarDate tza (Some orderTime) leadTime)
              = Some (MonthFromDay (localDay tza orderTime + leadTime))
          \<and> getDate tza (calendarDate tza (Some orderTime) leadTime)
              = Some (DateFromDay (localDay tza orderTime + leadTime))"
    by (intro impI)
  from out_of_range have c3: "maxTime < \<bar>orderTime + leadTime * msPerDay\<bar>
      \<longrightarrow> calendarDate tza (Some orderTime) leadTime = None"
    by (intro impI)
  from example have c4: "\<bar>tza\<bar> \<le> msPerDay
      \<longrightarrow> calendarDate tza (Date_new tza 2025 0 1) 5 = Date_new tza 2025 0 6
          \<and> getFullYear tza (Date_new tza 2025 0 6) = Some 2025
          \<and> getMonth tza (Date_new tza 2025 0 6) = Some 0
          \<and> getDate tza (Date_new tza 2025 0 6) = Some 6
          \<and> getDay tza (Date_new tza 2025 0 1) = Some 3
          \<and> (\<exists>r. calculateDelivery tza (Some (2025, 1, 1)) (Some 5) = Some (Inr r)
                \<and> calcResultCalendar r
                  = \<lparr> monthShown = Some 1, dateShown = Some 6, dayNameShown = Some Getsu \<rparr>)"
    by (intro impI)
  from calculateDelivery_part_000_2025_01_01(2) [of tza]
  have c5: "0 \<le> tza \<and> tza < msPerDay
      \<longrightarrow> calculateDelivery_part_000 tza (Some (2025, 1, 1)) (Some 5) ''calendar''
            = Some (Inr \<lparr> monthShown = Some 1, dateShown = Some 6, dayNameShown = Some Getsu \<rparr>)"
    by (intro impI) (elim conjE)
  from c1 c2 c3 c4 c5 show ?thesis
    by (intro conjI)
qed

theorem C3_calendar_mode_witness:
  "calendarDate 32400000 (Some 1735657200000) 5 = Some 1736089200000
   \<and> calendarDate 32400000 (Some 1735657200000) 100000000 = None
   \<and> calendarDate 32400000 (Date_new 32400000 2025 0 1) 5 = Date_new 32400000 2025 0 6
   \<and> calculateDelivery_part_000 32400000 (Some (2025, 1, 1)) (Some 5) ''calendar''
       = Some (Inr \<lparr> monthShown = Some 1, dateShown = Some 6, dayNameShown = Some Getsu \<rparr>)"
  using C3_calendar_mode [where tza = 32400000 and orderTime = 1735657200000 and leadTime = 5]
    C3_calendar_mode [where tza = 32400000 and orderTime = 1735657200000 and leadTime = 100000000]
  by (simp add: msPerDay_def maxTime_def TimeClip_def)

lemma increment_ge: "c \<le> increment c"
  by (simp add: increment_def)

text \<open>
  C7, for every lead time, fails: the counter is a Number, and a Number that has
  reached \<open>2 ^ 53\<close> is not changed by \<open>++\<close>. For the lead time \<open>2 ^ 53 + 2\<close> the exit
  test of the business-day loop never holds, and \<open>calculateDelivery\<close> does not return.
\<close>

theorem C7_termination_counterexample:
  "businessLoop 32400000 (2 ^ 53 + 2) (Date_new 32400000 2025 0 1, 0) = None
   \<and> calculateDelivery 32400000 (Some (2025, 1, 1)) (Some (2 ^ 53 + 2)) = None"
proof -
  have "businessLoop 32400000 (2 ^ 53 + 2) (Date_new 32400000 2025 0 1, 0) = None"
    by (rule businessLoop_diverges) simp_all
  then show ?thesis
    by (simp add: calculateDelivery_def Let_def)
qed

text \<open>
  C7, amended. For every order date (valid or not) and every lead time from 1 to
  \<open>2 ^ 53\<close>, each of the day-stepping loops terminates: it returns the state reached after
  \<open>k\<close> passes, with the counter equal to the lead time, and \<open>k\<close> is the lead time plus the
  number of skipped passes, those whose day is a Saturday, a Sunday or a holiday (for
  the holiday-aware loop: a holiday). A pass moves a valid date by exactly one day and
  never decreases the counter.
\<close>

theorem C7_termination:
  "(1 \<le> leadTime \<and> leadTime \<le> 2 ^ 53 \<longrightarrow>
      (\<exists>k. businessLoop tza leadTime (orderDate, 0)
              = Some ((businessStep tza ^^ k) (orderDate, 0))
          \<and> snd ((businessStep tza ^^ k) (orderDate, 0)) = leadTime
          \<and> int k = leadTime + int (length (filter
                (\<lambda>j. case fst ((businessStep tza ^^ Suc j) (orderDate, 0)) of
                       None \<Rightarrow> False
                     | Some t' \<Rightarrow> \<not> businessDay HolidayTable (localDay tza t'))
                [0..<k])))
      \<and> (\<exists>k. holidayAwareLoop tza leadTime (orderDate, 0)
              = Some ((holidayAwareStep tza ^^ k) (orderDate, 0))
          \<and> snd ((holidayAwareStep tza ^^ k) (orderDate, 0)) = leadTime
          \<and> int k = leadTime + int (length (filter
                (\<lambda>j. case fst ((holidayAwareStep tza ^^ Suc j) (orderDate, 0)) of
                       None \<Rightarrow> False
                     | Some t' \<Rightarrow> \<not> holidayAwareDay HolidayTable (localDay tza t'))
                [0..<k])))
      \<and> calculateDelivery tza (Some ymd) (Some leadTime) \<noteq> None)
   \<and> fst (businessStep tza (Some t, c)) = TimeClip (t + msPerDay)
   \<and> fst (holidayAwareStep tza (Some t, c)) = TimeClip (t + msPerDay)
   \<and> c \<le> snd (businessStep tza (d, c))
   \<and> c \<le> snd (holidayAwareStep tza (d, c))"
proof -
  have loops: "(\<exists>k. businessLoop tza leadTime (orderDate, 0)
              = Some ((businessStep tza ^^ k) (orderDate, 0))
          \<and> snd ((businessStep tza ^^ k) (orderDate, 0)) = leadTime
          \<and> int k = leadTime + int (length (filter
                (\<lambda>j. case fst ((businessStep tza ^^ Suc j) (orderDate, 0)) of
                       None \<Rightarrow> False
                     | Some t' \<Rightarrow> \<not> businessDay HolidayTable (localDay tza t'))
                [0..<k])))
      \<and> (\<exists>k. holidayAwareLoop tza leadTime (orderDate, 0)
              = Some ((holidayAwareStep tza ^^ k) (orderDate, 0))
          \<and> snd ((holidayAwareStep tza ^^ k) (orderDate, 0)) = leadTime
          \<and> int k = leadTime + int (length (filter
                (\<lambda>j. case fst ((holidayAwareStep tza ^^ Suc j) (orderDate, 0)) of
                       None \<Rightarrow> False
                     | Some t' \<Rightarrow> \<not> holidayAwareDay HolidayTable (localDay tza t'))
                [0..<k])))"
    if b: "1 \<le> leadTime" "leadTime \<le> 2 ^ 53" for orderDate
  proof
    show "\<exists>k. businessLoop tza leadTime (orderDate, 0)
              = Some ((businessStep tza ^^ k) (orderDate, 0))
          \<and> snd ((businessStep tza ^^ k) (orderDate, 0)) = leadTime
          \<and> int k = leadTime + int (length (filter
                (\<lambda>j. case fst ((businessStep tza ^^ Suc j) (orderDate, 0)) of
                       None \<Rightarrow> False
                     | Some t' \<Rightarrow> \<not> businessDay HolidayTable (localDay tza t'))
                [0..<k]))"
      using businessLoop.simps businessStep_Some businessStep_None b
      by (rule dayStepper_total
          [where loop = "businessLoop tza leadTime" and step = "businessStep tza"])
    show "\<exists>k. holidayAwareLoop tza leadTime (orderDate, 0)
              = Some ((holidayAwareStep tza ^^ k) (orderDate, 0))
          \<and> snd ((holidayAwareStep tza ^^ k) (orderDate, 0)) = leadTime
          \<and> int k = leadTime + int (length (filter
                (\<lambda>j. case fst ((holidayAwareStep tza ^^ Suc j) (orderDate, 0)) of
                       None \<Rightarrow> False
                     | Some t' \<Rightarrow> \<not> holidayAwareDay HolidayTable (localDay tza t'))
                [0..<k]))"
      using holidayAwareLoop.simps holidayAwareStep_Some holidayAwareStep_None b
      by (rule dayStepper_total
          [where loop = "holidayAwareLoop tza leadTime" and step = "holidayAwareStep tza"])
  qed
  have returns: "calculateDelivery tza (Some ymd) (Some leadTime) \<noteq> None"
    if b: "1 \<le> leadTime" "leadTime \<le> 2 ^ 53"
  proof -
    obtain y m d where ymd: "ymd = (y, m, d)" by (cases ymd)
    from loops [OF b, of "Date_new tza y (m - 1) d"]
    obtain r1 r2 where "businessLoop tza leadTime (Date_new tza y (m - 1) d, 0) = Some r1"
      and "holidayAwareLoop tza leadTime (Date_new tza y (m - 1) d, 0) = Some r2"
      by blast
    with b show ?thesis
      by (simp add: calculateDelivery_def Let_def ymd split: prod.split)
  qed
  from loops [of orderDate] returns
  have c1: "1 \<le> leadTime \<and> leadTime \<le> 2 ^ 53 \<longrightarrow>
      (\<exists>k. businessLoop tza leadTime (orderDate, 0)
              = Some ((businessStep tza ^^ k) (orderDate, 0))
          \<and> snd ((businessStep tza ^^ k) (orderDate, 0)) = leadTime
          \<and> int k = leadTime + int (length (filter
                (\<lambda>j. case fst ((businessStep tza ^^ Suc j) (orderDate, 0)) of
                       None \<Rightarrow> False
                     | Some t' \<Rightarrow> \<not> businessDay HolidayTable (localDay tza t'))
                [0..<k])))
      \<and> (\<exists>k. holidayAwareLoop tza leadTime (orderDate, 0)
              = Some ((holidayAwareStep tza ^^ k) (orderDate, 0))
          \<and> snd ((holidayAwareStep tza ^^ k) (orderDate, 0)) = leadTime
          \<and> int k = leadTime + int (length (filter
                (\<lambda>j. case fst ((holidayAwareStep tza ^^ Suc j) (orderDate, 0)) of
                       None \<Rightarrow> False
                     | Some t' \<Rightarrow> \<not> holidayAwareDay HolidayTable (localDay tza t'))
                [0..<k])))
      \<and> calculateDelivery tza (Some ymd) (Some leadTime) \<noteq> None"
    by (intro impI conjI; elim conjE; simp)
  have c2: "fst (businessStep tza (Some t, c)) = TimeClip (t + msPerDay)"
    by (simp add: businessStep_Some split: option.split)
  have c3: "fst (holidayAwareStep tza (Some t, c)) = TimeClip (t + msPerDay)"
    by (simp add: holidayAwareStep_Some split: option.split)
  have c4: "c \<le> snd (businessStep tza (d, c))"
    using increment_ge [of c] by (simp add: businessStep_def Let_def)
  have c5: "c \<le> snd (holidayAwareStep tza (d, c))"
    using increment_ge [of c] by (simp add: holidayAwareStep_def Let_def)
  from c1 c2 c3 c4 c5 show ?thesis
    by (intro conjI)
qed

theorem C7_termination_witness:
  "(\<exists>k. businessLoop 32400000 5 (Some 1735657200000, 0)
        = Some ((businessStep 32400000 ^^ k) (Some 1735657200000, 0))
      \<and> snd ((businessStep 32400000 ^^ k) (Some 1735657200000, 0)) = 5)
   \<and> (\<exists>k. holidayAwareLoop 32400000 5 (Some 1735657200000, 0)
        = Some ((holidayAwareStep 32400000 ^^ k) (Some 1735657200000, 0))
      \<and> snd ((holidayAwareStep 32400000 ^^ k) (Some 1735657200000, 0)) = 5)
   \<and> calculateDelivery 32400000 (Some (2025, 1, 1)) (Some 5) \<noteq> None"
proof -
  have b: "(1 :: int) \<le> 5 \<and> (5 :: int) \<le> 2 ^ 53" by simp
  from C7_termination [where tza = 32400000 and leadTime = 5 and orderDate = "Some 1735657200000"
      and ymd = "(2025, 1, 1)" and t = 0 and c = 0 and d = None] b
  show ?thesis by blast
qed

section \<open>The holiday lookup against its specification\<close>

text \<open>
  C8. A lookup that finds no entry answers \<open>undefined\<close> (\<open>None\<close>) and raises nothing:
  whatever \<open>isHoliday\<close> returns is a value of the table, so for a date that no key of
  the table denotes it returns \<open>undefined\<close>, also for the \<open>NaN\<close> arguments of an invalid
  date. Both loops treat such a day as a day that is not a holiday: the holiday-aware
  loop counts it, the business-day loop counts it unless it is a Saturday or a Sunday.
\<close>

theorem C8_lookup_miss:
  "(HolidayTable (year, m + 1, day) = None \<longrightarrow> isHoliday (Some year) (Some m) (Some day) = None)
   \<and> (isHoliday y' m' d' = Some name \<longrightarrow> (\<exists>key. (key, name) \<in> set holidays))
   \<and> isHoliday None None None = None
   \<and> (TimeClip (t + msPerDay) = Some t'
        \<and> HolidayTable (calendarDateOfDay (localDay tza t')) = None
      \<longrightarrow> isHoliday (getFullYear tza (Some t')) (getMonth tza (Some t')) (getDate tza (Some t'))
            = None
          \<and> holidayAwareStep tza (Some t, c) = (Some t', increment c)
          \<and> businessStep tza (Some t, c)
            = (Some t', if WeekDayOfDay (localDay tza t') = 0 \<or> WeekDayOfDay (localDay tza t') = 6
                        then c else increment c))"
proof -
  have c1: "HolidayTable (year, m + 1, day) = None
      \<longrightarrow> isHoliday (Some year) (Some m) (Some day) = None"
    by (simp add: isHoliday_HolidayTable)
  have c2: "isHoliday y' m' d' = Some name \<longrightarrow> (\<exists>key. (key, name) \<in> set holidays)"
    unfolding isHoliday_def Let_def by (blast dest: map_of_SomeD)
  have c4: "TimeClip (t + msPerDay) = Some t'
        \<and> HolidayTable (calendarDateOfDay (localDay tza t')) = None
      \<longrightarrow> isHoliday (getFullYear tza (Some t')) (getMonth tza (Some t')) (getDate tza (Some t'))
            = None
          \<and> holidayAwareStep tza (Some t, c) = (Some t', increment c)
          \<and> businessStep tza (Some t, c)
            = (Some t', if WeekDayOfDay (localDay tza t') = 0 \<or> WeekDayOfDay (localDay tza t') = 6
                        then c else increment c)"
    by (simp add: holidayAwareStep_Some businessStep_Some holidayAwareDay_def businessDay_def
        getters_Some isHoliday_HolidayTable calendarDateOfDay_def)
  from c1 c2 isHoliday_NaN c4 show ?thesis
    by (intro conjI)
qed

theorem C8_lookup_miss_witness:
  "isHoliday (Some 2025) (Some 0) (Some 2) = None
   \<and> holidayAwareStep 32400000 (Some 1735657200000, 0) = (Some 1735743600000, 1)
   \<and> businessStep 32400000 (Some 1735657200000, 0) = (Some 1735743600000, 1)"
  using C8_lookup_miss [where year = 2025 and m = 0 and day = 2 and tza = 32400000
      and t = 1735657200000 and t' = 1735743600000 and c = 0
      and y' = None and m' = None and d' = None and name = Ganjitsu]
  by (simp add: HolidayTable_list TimeClip_def msPerDay_def maxTime_def localDay_def
      LocalTime_def Day_def calendar_eval increment_def)

text \<open>
  The step to 2025-01-13, a Monday and a holiday, leaves the counter as it is in all
  three loops; the step to 2025-02-13, a Thursday and no holiday, counts.
\<close>

lemma example_dates_13:
  assumes "\<bar>tza\<bar> \<le> msPerDay"
  shows "Date_new tza 2025 0 12 = Some (20100 * msPerDay - tza)"
    and "Date_new tza 2025 1 12 = Some (20131 * msPerDay - tza)"
    and "Date_new tza 2025 1 13 = Some (20132 * msPerDay - tza)"
  using assms Date_new_day(1) [of tza 2025 0 12] Date_new_day(1) [of tza 2025 1 12]
    Date_new_day(1) [of tza 2025 1 13]
  by (simp_all add: MakeDay_def DayFromYear_def DaysInYear_def monthStart_def)

lemma example_steps:
  assumes "\<bar>tza\<bar> \<le> msPerDay"
  shows "businessStep tza (Date_new tza 2025 0 12, c) = (Date_new tza 2025 0 13, c)"
    and "holidayAwareStep tza (Date_new tza 2025 0 12, c) = (Date_new tza 2025 0 13, c)"
    and "businessStep_part_000 tza (Date_new tza 2025 0 12, c) = (Date_new tza 2025 0 13, c)"
    and "businessStep tza (Date_new tza 2025 1 12, c) = (Date_new tza 2025 1 13, increment c)"
    and "holidayAwareStep tza (Date_new tza 2025 1 12, c) = (Date_new tza 2025 1 13, increment c)"
    and "businessStep_part_000 tza (Date_new tza 2025 1 12, c)
           = (Date_new tza 2025 1 13, increment c)"
proof -
  have a: "20100 * msPerDay - tza + msPerDay = 20101 * msPerDay - tza"
    and b: "20131 * msPerDay - tza + msPerDay = 20132 * msPerDay - tza"
    by simp_all
  have c1: "TimeClip (20101 * msPerDay - tza) = Some (20101 * msPerDay - tza)"
    and c2: "TimeClip (20132 * msPerDay - tza) = Some (20132 * msPerDay - tza)"
    using local_midnight(2) [OF assms, of 20101] local_midnight(2) [OF assms, of 20132]
    by (simp_all add: TimeClip_def)
  have d1: "localDay tza (20101 * msPerDay - tza) = 20101"
    and d2: "localDay tza (20132 * msPerDay - tza) = 20132"
    using local_midnight(1) [OF assms, of 20101] local_midnight(1) [OF assms, of 20132]
    by simp_all
  have h1: "\<not> businessDay HolidayTable 20101" "\<not> holidayAwareDay HolidayTable 20101"
    "\<not> businessDay HolidayTable_part_000 20101"
    by (simp_all add: businessDay_def holidayAwareDay_def HolidayTable_list
        HolidayTable_part_000_list calendar_eval)
  have h2: "businessDay HolidayTable 20132" "holidayAwareDay HolidayTable 20132"
    "businessDay HolidayTable_part_000 20132"
    by (simp_all add: businessDay_def holidayAwareDay_def HolidayTable_list
        HolidayTable_part_000_list calendar_eval)
  show "businessStep tza (Date_new tza 2025 0 12, c) = (Date_new tza 2025 0 13, c)"
    by (simp only: example_dates_13 [OF assms] example_dates [OF assms] businessStep_Some a c1 d1 h1 option.case)
      (simp add: d1 h1)
  show "holidayAwareStep tza (Date_new tza 2025 0 12, c) = (Date_new tza 2025 0 13, c)"
    by (simp only: example_dates_13 [OF assms] example_dates [OF assms] holidayAwareStep_Some a c1 d1 h1 option.case)
      (simp add: d1 h1)
  show "businessStep_part_000 tza (Date_new tza 2025 0 12, c) = (Date_new tza 2025 0 13, c)"
    by (simp only: example_dates_13 [OF assms] example_dates [OF assms] businessStep_part_000_Some
        a c1 d1 h1 option.case) (simp add: d1 h1)
  show "businessStep tza (Date_new tza 2025 1 12, c) = (Date_new tza 2025 1 13, increment c)"
    by (simp only: example_dates_13 [OF assms] businessStep_Some b c2 d2 h2 option.case) (simp add: d2 h2)
  show "holidayAwareStep tza (Date_new tza 2025 1 12, c) = (Date_new tza 2025 1 13, increment c)"
    by (simp only: example_dates_13 [OF assms] holidayAwareStep_Some b c2 d2 h2 option.case) (simp add: d2 h2)
  show "businessStep_part_000 tza (Date_new tza 2025 1 12, c)
           = (Date_new tza 2025 1 13, increment c)"
    by (simp only: example_dates_13 [OF assms] businessStep_part_000_Some b c2 d2 h2 option.case) (simp add: d2 h2)
qed

text \<open>
  C9. The month convention of the lookup is consistent. \<open>isHoliday\<close> takes a month
  counted from zero and builds its key with \<open>month + 1\<close>, and the keys of the table
  carry the month counted from one: for every year, month and day, \<open>isHoliday\<close> returns
  the table's entry for that calendar date, in both copies. The call sites, one in each
  loop of \<open>calculateDelivery\<close>, pass the year, the zero-based month of \<open>getMonth\<close> and the
  day of the month of the new date, so one pass of each loop looks up the calendar date
  of the day it has stepped to: no lookup is a month off. The holiday of 2025-01-13 is
  found with month 0 and not with month 1; in Japanese time the loops do not count the
  step from 2025-01-12 to 2025-01-13, and they count the step from 2025-02-12 to
  2025-02-13.
\<close>

theorem C9_month_convention:
  "isHoliday (Some year) (Some m) (Some day) = HolidayTable (year, m + 1, day)
   \<and> isHoliday_part_000 (Some year) (Some m) (Some day) = HolidayTable_part_000 (year, m + 1, day)
   \<and> isHoliday (getFullYear tza (Some t)) (getMonth tza (Some t)) (getDate tza (Some t))
       = HolidayTable (calendarDateOfDay (localDay tza t))
   \<and> isHoliday_part_000 (getFullYear tza (Some t)) (getMonth tza (Some t)) (getDate tza (Some t))
       = HolidayTable_part_000 (calendarDateOfDay (localDay tza t))
   \<and> calendarDateOfDay (localDay tza t)
       = (YearFromDay (localDay tza t), MonthFromDay (localDay tza t) + 1,
          DateFromDay (localDay tza t))
   \<and> parseDateKey ''2025-01-13'' = (2025, 1, 13)
   \<and> HolidayTable (2025, 1, 13) = Some SeijinNoHi
   \<and> isHoliday (Some 2025) (Some 0) (Some 13) = Some SeijinNoHi
   \<and> isHoliday (Some 2025) (Some 1) (Some 13) = None
   \<and> isHoliday_part_000 (Some 2025) (Some 0) (Some 13) = Some SeijinNoHi
   \<and> businessStep tza (Some t, c) =
       (case TimeClip (t + msPerDay) of
          None \<Rightarrow> (None, increment c)
        | Some t' \<Rightarrow>
            (Some t', if businessDay HolidayTable (localDay tza t') then increment c else c))
   \<and> holidayAwareStep tza (Some t, c) =
       (case TimeClip (t + msPerDay) of
          None \<Rightarrow> (None, increment c)
        | Some t' \<Rightarrow>
            (Some t', if holidayAwareDay HolidayTable (localDay tza t') then increment c else c))
   \<and> businessStep_part_000 tza (Some t, c) =
       (case TimeClip (t + msPerDay) of
          None \<Rightarrow> (None, increment c)
        | Some t' \<Rightarrow>
            (Some t',
             if businessDay HolidayTable_part_000 (localDay tza t') then increment c else c))
   \<and> businessDay HolidayTable D
       = (WeekDayOfDay D \<noteq> 0 \<and> WeekDayOfDay D \<noteq> 6 \<and> HolidayTable (calendarDateOfDay D) = None)
   \<and> holidayAwareDay HolidayTable D = (HolidayTable (calendarDateOfDay D) = None)
   \<and> businessDay HolidayTable_part_000 D
       = (WeekDayOfDay D \<noteq> 0 \<and> WeekDayOfDay D \<noteq> 6
          \<and> HolidayTable_part_000 (calendarDateOfDay D) = None)
   \<and> businessStep 32400000 (Date_new 32400000 2025 0 12, 0) = (Date_new 32400000 2025 0 13, 0)
   \<and> holidayAwareStep 32400000 (Date_new 32400000 2025 0 12, 0)
       = (Date_new 32400000 2025 0 13, 0)
   \<and> businessStep_part_000 32400000 (Date_new 32400000 2025 0 12, 0)
       = (Date_new 32400000 2025 0 13, 0)
   \<and> businessStep 32400000 (Date_new 32400000 2025 1 12, 0) = (Date_new 32400000 2025 1 13, 1)
   \<and> holidayAwareStep 32400000 (Date_new 32400000 2025 1 12, 0)
       = (Date_new 32400000 2025 1 13, 1)
   \<and> businessStep_part_000 32400000 (Date_new 32400000 2025 1 12, 0)
       = (Date_new 32400000 2025 1 13, 1)"
proof -
  have c3: "isHoliday (getFullYear tza (Some t)) (getMonth tza (Some t)) (getDate tza (Some t))
       = HolidayTable (calendarDateOfDay (localDay tza t))"
    by (simp add: getters_Some isHoliday_HolidayTable calendarDateOfDay_def)
  have c4: "isHoliday_part_000 (getFullYear tza (Some t)) (getMonth tza (Some t))
        (getDate tza (Some t))
       = HolidayTable_part_000 (calendarDateOfDay (localDay tza t))"
    by (simp add: getters_Some isHoliday_part_000_HolidayTable calendarDateOfDay_def)
  have c6: "parseDateKey ''2025-01-13'' = (2025, 1, 13)"
    by (simp add: parseDateKey_def readInt_def readDigits_def digitValue_def digitChars_def
        isDigit_def)
  have c7: "HolidayTable (2025, 1, 13) = Some SeijinNoHi"
    by (simp add: HolidayTable_list)
  have c8: "isHoliday (Some 2025) (Some 0) (Some 13) = Some SeijinNoHi"
    by (simp add: isHoliday_HolidayTable HolidayTable_list)
  have c9: "isHoliday (Some 2025) (Some 1) (Some 13) = None"
    by (simp add: isHoliday_HolidayTable HolidayTable_list)
  have c10: "isHoliday_part_000 (Some 2025) (Some 0) (Some 13) = Some SeijinNoHi"
    by (simp add: isHoliday_part_000_HolidayTable HolidayTable_part_000_list)
  have jst: "\<bar>32400000\<bar> \<le> msPerDay"
    by (simp add: msPerDay_def)
  have one: "increment 0 = 1"
    by (simp add: increment_def)
  have e1: "businessStep 32400000 (Date_new 32400000 2025 0 12, 0)
       = (Date_new 32400000 2025 0 13, 0)"
    by (rule example_steps(1) [OF jst])
  have e2: "holidayAwareStep 32400000 (Date_new 32400000 2025 0 12, 0)
       = (Date_new 32400000 2025 0 13, 0)"
    by (rule example_steps(2) [OF jst])
  have e3: "businessStep_part_000 32400000 (Date_new 32400000 2025 0 12, 0)
       = (Date_new 32400000 2025 0 13, 0)"
    by (rule example_steps(3) [OF jst])
  have e4: "businessStep 32400000 (Date_new 32400000 2025 1 12, 0)
       = (Date_new 32400000 2025 1 13, 1)"
    using example_steps(4) [OF jst, of 0] by (simp only: one)
  have e5: "holidayAwareStep 32400000 (Date_new 32400000 2025 1 12, 0)
       = (Date_new 32400000 2025 1 13, 1)"
    using example_steps(5) [OF jst, of 0] by (simp only: one)
  have e6: "businessStep_part_000 32400000 (Date_new 32400000 2025 1 12, 0)
       = (Date_new 32400000 2025 1 13, 1)"
    using example_steps(6) [OF jst, of 0] by (simp only: one)
  from isHoliday_HolidayTable [of year m day] isHoliday_part_000_HolidayTable [of year m day]
    c3 c4 calendarDateOfDay_def [of "localDay tza t"] c6 c7 c8 c9 c10
    businessStep_Some [of tza t c] holidayAwareStep_Some [of tza t c]
    businessStep_part_000_Some [of tza t c]
    businessDay_def [of HolidayTable D] holidayAwareDay_def [of HolidayTable D]
    businessDay_def [of HolidayTable_part_000 D]
    e1 e2 e3 e4 e5 e6
  show ?thesis
    by (intro conjI)
qed

end
